theory Spec2Isabelle
  imports Main "HOL-Library.Multiset"
begin

chapter \<open>The client scripts of the AI calculator\<close>

text \<open>
  A shallow embedding of the browser scripts of the calculator: the display of a solve
  response, the sorting of the saved calculations, the session in browser storage and
  cookies, the saving of a calculation, and the text-mode converter into LaTeX. The
  first part holds the definitions, each next to the source it follows; the second part
  holds the proofs.
\<close>

section \<open>JavaScript strings and values\<close>

text \<open>
  Strings are lists of 8-bit code units (\<^typ>\<open>string\<close>); the embedding covers the
  inputs whose code units lie in that range. A value that may be \<open>undefined\<close> or
  \<open>null\<close> is an \<^typ>\<open>'a option\<close>. A string is truthy when it is not empty.
\<close>

abbreviation backslash :: char where
  "backslash \<equiv> CHR 0x5C"

definition truthy :: "string option \<Rightarrow> bool" where
  "truthy v = (case v of None \<Rightarrow> False | Some s \<Rightarrow> s \<noteq> [])"

text \<open>\<open>a || b\<close> on strings that may be absent.\<close>

definition js_or :: "string option \<Rightarrow> string \<Rightarrow> string" where
  "js_or v d = (case v of None \<Rightarrow> d | Some s \<Rightarrow> if s = [] then d else s)"

text \<open>\<open>Array.prototype.join\<close>.\<close>

fun join :: "string \<Rightarrow> string list \<Rightarrow> string" where
  "join sep [] = []"
| "join sep [x] = x"
| "join sep (x # y # ys) = x @ sep @ join sep (y # ys)"

text \<open>\<open>s.includes(c)\<close> for a one-character needle.\<close>

definition includes_js :: "string \<Rightarrow> char \<Rightarrow> bool" where
  "includes_js s c = (c \<in> set s)"

text \<open>The ASCII ranges \<open>a-z\<close>, \<open>A-Z\<close> and \<open>0-9\<close>.\<close>

definition is_lower :: "char \<Rightarrow> bool" where
  "is_lower c = (97 \<le> (of_char c :: nat) \<and> (of_char c :: nat) \<le> 122)"

definition is_upper :: "char \<Rightarrow> bool" where
  "is_upper c = (65 \<le> (of_char c :: nat) \<and> (of_char c :: nat) \<le> 90)"

definition is_digit :: "char \<Rightarrow> bool" where
  "is_digit c = (48 \<le> (of_char c :: nat) \<and> (of_char c :: nat) \<le> 57)"

text \<open>
  White space as \<open>String.prototype.trim\<close> and the regular expression class \<open>\s\<close> see it,
  among 8-bit code units: tab, line feed, vertical tab, form feed, carriage return,
  space and no-break space.
\<close>

definition is_js_space :: "char \<Rightarrow> bool" where
  "is_js_space c = (c \<in> {CHR 0x09, CHR 0x0A, CHR 0x0B, CHR 0x0C, CHR 0x0D, CHR 0x20, CHR 0xA0})"

definition js_trim :: "string \<Rightarrow> string" where
  "js_trim s = rev (dropWhile is_js_space (rev (dropWhile is_js_space s)))"

section \<open>The solve response and its display (text-mode.js, draw-mode.js)\<close>

text \<open>
  The body of \<open>POST /api/solve\<close>: \<open>{solution, ai_steps?, error?}\<close>. The solution is a
  string or a list of strings.
\<close>

datatype solution_field = SolStr string | SolArr "string list"

record solve_response =
  resp_error :: "string option"
  resp_solution :: "solution_field option"
  resp_ai_steps :: "string list option"

text \<open>
  What \<open>displaySolution\<close> leaves in the \<open>.solution-result\<close> element: the output of
  \<open>katex.render\<close>, or markup assigned to \<open>innerHTML\<close>, or a string assigned to
  \<open>textContent\<close>.
\<close>

datatype result_element =
    Rendered string
  | InnerHTML string
  | TextContent string

datatype js_error = TypeError | ParseError

text \<open>
  \<open>katex.render\<close> is a parameter: \<open>Inr html\<close> when it renders the markup, \<open>Inl e\<close> when
  it throws.
\<close>

type_synonym katex = "string \<Rightarrow> js_error + string"

text \<open>The markup built for several solutions (the branch \<open>solution.solution.length > 1\<close>).\<close>

definition solutionsHtml :: "string list \<Rightarrow> string" where
  "solutionsHtml sols =
     (if list_all (\<lambda>sol. includes_js sol CHR ''='') sols
      then join ([CHR '','', CHR '' '', backslash, CHR '';'', CHR '' '']) sols
      else ''x = '' @ join ([CHR '','', CHR '' '', backslash, CHR '';'', CHR '' ''] @ ''x = '') sols)"

text \<open>
  \<open>try { katex.render(markup, result) } catch (e) { fallback }\<close>: the exception is
  caught and the fallback is written into the element.
\<close>

definition render_or :: "katex \<Rightarrow> string \<Rightarrow> result_element \<Rightarrow> result_element" where
  "render_or k markup fallback =
     (case k markup of Inr html \<Rightarrow> Rendered html | Inl e \<Rightarrow> fallback)"

text \<open>
  The \<open>.solution-result\<close> element. In the single-solution branch the text is
  \<open>solution.solution[0]\<close> or \<open>solution.solution\<close>; when that is \<open>undefined\<close> (no
  solution, or an empty list) KaTeX rejects the non-string and \<open>textContent\<close> is
  cleared.
\<close>

definition result_of :: "katex \<Rightarrow> solve_response \<Rightarrow> result_element" where
  "result_of k solution =
     (if truthy (resp_error solution)
      then InnerHTML (''<div class=\"error\">'' @ the (resp_error solution) @ ''</div>'')
      else (case resp_solution solution of
              Some (SolArr sols) \<Rightarrow>
                (if length sols > 1
                 then render_or k (solutionsHtml sols)
                        (InnerHTML (''<div>'' @ solutionsHtml sols @ ''</div>''))
                 else (case sols of
                         [] \<Rightarrow> TextContent []
                       | solutionText # _ \<Rightarrow> render_or k solutionText (TextContent solutionText)))
            | Some (SolStr solutionText) \<Rightarrow> render_or k solutionText (TextContent solutionText)
            | None \<Rightarrow> TextContent []))"

text \<open>
  The page as \<open>displaySolution\<close> sees it: whether \<open>#main-content\<close> exists, and the
  children of \<open>.solution-container\<close> when that exists. The steps section holds the
  \<open>ai_steps\<close> it was built from (their markdown is rewritten by string replacement,
  which is not modelled).
\<close>

datatype node =
    Header string
  | Result result_element
  | Steps "string list"

record page =
  has_main_content :: bool
  solution_container :: "node list option"

definition steps_section :: "solve_response \<Rightarrow> node list" where
  "steps_section solution =
     (case resp_ai_steps solution of
        None \<Rightarrow> []
      | Some steps \<Rightarrow> if length steps > 0 then [Steps steps] else [])"

text \<open>
  \<open>DrawMode.displaySolution\<close>. A missing container is created under \<open>#main-content\<close>;
  \<open>document.getElementById('main-content').appendChild\<close> throws when that element is
  missing too.
\<close>

definition DrawMode_displaySolution :: "katex \<Rightarrow> solve_response \<Rightarrow> page \<Rightarrow> js_error + page" where
  "DrawMode_displaySolution k solution p =
     (if solution_container p = None \<and> \<not> has_main_content p then Inl TypeError
      else Inr (p\<lparr>solution_container :=
                  Some ([Header ''Solution'', Result (result_of k solution)] @ steps_section solution)\<rparr>))"

text \<open>
  \<open>TextMode.displaySolution\<close> is the same routine followed by the auto-save gate: the
  second component tells whether the one-second timer calling \<open>autoSaveCalculation\<close>
  was set.
\<close>

record window =
  window_isAuthenticated :: bool
  window_saveCurrentCalculation :: bool

definition autoSave_gate :: "window \<Rightarrow> solve_response \<Rightarrow> bool" where
  "autoSave_gate w solution =
     (window_isAuthenticated w \<and> window_saveCurrentCalculation w \<and> \<not> truthy (resp_error solution))"

definition TextMode_displaySolution ::
  "katex \<Rightarrow> window \<Rightarrow> solve_response \<Rightarrow> page \<Rightarrow> js_error + (page \<times> bool)" where
  "TextMode_displaySolution k w solution p =
     (case DrawMode_displaySolution k solution p of
        Inl e \<Rightarrow> Inl e
      | Inr p' \<Rightarrow> Inr (p', autoSave_gate w solution))"

definition shown_result :: "page \<Rightarrow> result_element option" where
  "shown_result p =
     (case solution_container p of
        Some (_ # Result r # _) \<Rightarrow> Some r
      | _ \<Rightarrow> None)"

section \<open>Sorting the saved calculations (dashboard.js)\<close>

record calculation =
  calc_id :: string
  calc_title :: "string option"
  operation_type :: string
  latex_input :: string
  calc_solution :: string
  ai_explanation :: "string option"
  created_at :: string

text \<open>
  \<open>new Date(x) - new Date(y)\<close>. Parsing a date string is the platform's; it is a
  parameter giving the time value in milliseconds, \<open>None\<close> for an invalid date, whose
  difference with anything is \<open>NaN\<close> (\<open>None\<close> again).
\<close>

definition date_diff :: "(string \<Rightarrow> int option) \<Rightarrow> string \<Rightarrow> string \<Rightarrow> int option" where
  "date_diff parse x y =
     (case parse x of
        None \<Rightarrow> None
      | Some tx \<Rightarrow> (case parse y of None \<Rightarrow> None | Some ty \<Rightarrow> Some (tx - ty)))"

text \<open>
  \<open>a.localeCompare(b)\<close>: negative, zero or positive by the platform's collation, which
  is a parameter mapping a string to its collation key.
\<close>

definition localeCompare :: "(string \<Rightarrow> 'k::linorder) \<Rightarrow> string \<Rightarrow> string \<Rightarrow> int" where
  "localeCompare collate a b =
     (if collate a < collate b then -1 else if collate a = collate b then 0 else 1)"

text \<open>
  \<open>Array.prototype.sort(comparefn)\<close>: a comparator result of \<open>NaN\<close> counts as \<open>+0\<close>, and
  the sort is stable. For a consistent comparator every stable sort returns the same
  list, so the model is a stable insertion sort.
\<close>

definition nan_to_zero :: "int option \<Rightarrow> int" where
  "nan_to_zero v = (case v of None \<Rightarrow> 0 | Some n \<Rightarrow> n)"

fun insert_by :: "('a \<Rightarrow> 'a \<Rightarrow> int) \<Rightarrow> 'a \<Rightarrow> 'a list \<Rightarrow> 'a list" where
  "insert_by cmp x [] = [x]"
| "insert_by cmp x (y # ys) = (if cmp x y \<le> 0 then x # y # ys else y # insert_by cmp x ys)"

definition js_sort :: "('a \<Rightarrow> 'a \<Rightarrow> int) \<Rightarrow> 'a list \<Rightarrow> 'a list" where
  "js_sort cmp xs = foldr (insert_by cmp) xs []"

text \<open>\<open>sortCalculations\<close> copies the list (\<open>[...calculations]\<close>) and sorts the copy.\<close>

definition sortCalculations ::
  "(string \<Rightarrow> int option) \<Rightarrow> (string \<Rightarrow> 'k::linorder) \<Rightarrow> calculation list \<Rightarrow> string \<Rightarrow> calculation list" where
  "sortCalculations parse collate calculations sortOption =
     (if sortOption = ''date-desc''
      then js_sort (\<lambda>a b. nan_to_zero (date_diff parse (created_at b) (created_at a))) calculations
      else if sortOption = ''date-asc''
      then js_sort (\<lambda>a b. nan_to_zero (date_diff parse (created_at a) (created_at b))) calculations
      else if sortOption = ''type''
      then js_sort (\<lambda>a b. localeCompare collate (operation_type a) (operation_type b)) calculations
      else calculations)"

text \<open>The time value of a calculation whose \<open>created_at\<close> parses.\<close>

definition created_time :: "(string \<Rightarrow> int option) \<Rightarrow> calculation \<Rightarrow> int" where
  "created_time parse c = (case parse (created_at c) of Some t \<Rightarrow> t | None \<Rightarrow> 0)"

section \<open>Browser storage and cookies (auth.js, user-auth.js, dashboard.js)\<close>

text \<open>
  The cookie store is the browser's. The model keeps the cookies of path \<open>/\<close> that the
  page sees, oldest first, one per name, and follows the storage rules of RFC 6265: the
  text before the first \<open>;\<close> is split at its first \<open>=\<close> into name and value, spaces
  and tabs around both are dropped, a string with no \<open>=\<close> or an empty name is ignored,
  and a cookie whose expiry is not in the future is removed. The text of the
  attributes is not parsed: an assignment to \<open>document.cookie\<close> is the name-value text
  with the time of its \<open>expires\<close> attribute (milliseconds, when present) and its path.

  Browsers add to these rules. They cut the text at a line break or refuse a cookie
  that holds another control character, refuse a name and value of more than 4096
  bytes and a name with the prefix \<open>__Secure-\<close> or \<open>__Host-\<close> that lacks its
  attributes, and tell cookies of one name apart by their path. None of this is in the
  model: the round trip of a cookie is stated below for printable texts within these
  bounds, in a store with one cookie per name.
\<close>

record cookie =
  cookie_name :: string
  cookie_value :: string
  cookie_expires :: "int option"
  cookie_path :: string

record cookie_string =
  cs_pair :: string
  cs_expires :: "int option"
  cs_path :: string

definition is_wsp :: "char \<Rightarrow> bool" where
  "is_wsp c = (c = CHR '' '' \<or> c = CHR 0x09)"

definition trim_wsp :: "string \<Rightarrow> string" where
  "trim_wsp s = rev (dropWhile is_wsp (rev (dropWhile is_wsp s)))"

fun store_put :: "cookie \<Rightarrow> cookie list \<Rightarrow> cookie list" where
  "store_put c [] = [c]"
| "store_put c (d # ds) =
     (if cookie_name d = cookie_name c then c # ds else d # store_put c ds)"

definition store_remove :: "string \<Rightarrow> cookie list \<Rightarrow> cookie list" where
  "store_remove n jar = filter (\<lambda>d. cookie_name d \<noteq> n) jar"

text \<open>The setter of \<open>document.cookie\<close> at time \<open>now\<close>.\<close>

definition document_cookie_assign :: "int \<Rightarrow> cookie_string \<Rightarrow> cookie list \<Rightarrow> cookie list" where
  "document_cookie_assign now cs jar =
     (let pair = takeWhile (\<lambda>x. x \<noteq> CHR '';'') (cs_pair cs) in
      if CHR ''='' \<notin> set pair then jar
      else
        let n = trim_wsp (takeWhile (\<lambda>x. x \<noteq> CHR ''='') pair);
            v = trim_wsp (drop 1 (dropWhile (\<lambda>x. x \<noteq> CHR ''='') pair))
        in if n = [] then jar
           else (case cs_expires cs of
                   None \<Rightarrow>
                     store_put \<lparr>cookie_name = n, cookie_value = v, cookie_expires = None,
                                cookie_path = cs_path cs\<rparr> jar
                 | Some t \<Rightarrow>
                     if t \<le> now then store_remove n jar
                     else store_put \<lparr>cookie_name = n, cookie_value = v, cookie_expires = Some t,
                                     cookie_path = cs_path cs\<rparr> jar))"

text \<open>The getter of \<open>document.cookie\<close>: \<open>name=value\<close> of each cookie, joined by \<open>; \<close>.\<close>

definition cookie_pair :: "cookie \<Rightarrow> string" where
  "cookie_pair c = cookie_name c @ ''='' @ cookie_value c"

definition document_cookie :: "cookie list \<Rightarrow> string" where
  "document_cookie jar = join ''; '' (map cookie_pair jar)"

text \<open>\<open>String.prototype.split\<close> with a one-character separator.\<close>

fun split_on :: "char \<Rightarrow> string \<Rightarrow> string list" where
  "split_on sep [] = [[]]"
| "split_on sep (x # xs) =
     (if x = sep then [] # split_on sep xs
      else (x # hd (split_on sep xs)) # tl (split_on sep xs))"

text \<open>
  \<open>getCookie\<close> (user-auth.js). The loop over the pieces of \<open>document.cookie\<close>: leading
  spaces are dropped, and the first piece that starts with \<open>name=\<close> gives the value.
\<close>

fun getCookie_loop :: "string \<Rightarrow> string list \<Rightarrow> string option" where
  "getCookie_loop nameEQ [] = None"
| "getCookie_loop nameEQ (piece # ca) =
     (let c = dropWhile (\<lambda>x. x = CHR '' '') piece in
      if take (length nameEQ) c = nameEQ then Some (drop (length nameEQ) c)
      else getCookie_loop nameEQ ca)"

definition getCookie :: "string \<Rightarrow> cookie list \<Rightarrow> string option" where
  "getCookie name jar = getCookie_loop (name @ ''='') (split_on CHR '';'' (document_cookie jar))"

text \<open>
  \<open>setCookie\<close> (auth.js, user-auth.js): the string it assigns to \<open>document.cookie\<close>, and
  the assignment. \<open>value || ""\<close> makes an absent value empty; \<open>if (days)\<close> is false
  for zero.
\<close>

definition setCookie_string :: "int \<Rightarrow> string \<Rightarrow> string option \<Rightarrow> int \<Rightarrow> cookie_string" where
  "setCookie_string now name value days =
     \<lparr>cs_pair = name @ ''='' @ js_or value [],
      cs_expires = (if days \<noteq> 0 then Some (now + days * 24 * 60 * 60 * 1000) else None),
      cs_path = ''/''\<rparr>"

definition setCookie :: "int \<Rightarrow> string \<Rightarrow> string option \<Rightarrow> int \<Rightarrow> cookie list \<Rightarrow> cookie list" where
  "setCookie now name value days jar =
     document_cookie_assign now (setCookie_string now name value days) jar"

text \<open>The browser state the session lives in.\<close>

record browser =
  localStorage :: "string \<rightharpoonup> string"
  cookies :: "cookie list"
  location :: string

text \<open>
  \<open>document.cookie = "authToken=; expires=Thu, 01 Jan 1970 00:00:00 UTC; path=/;"\<close>: the
  expiry is time zero.
\<close>

definition clear_authToken_cookie :: cookie_string where
  "clear_authToken_cookie = \<lparr>cs_pair = ''authToken='', cs_expires = Some 0, cs_path = ''/''\<rparr>"

text \<open>
  \<open>logout\<close> of user-auth.js. Its module variables \<open>isAuthenticated\<close>, \<open>currentUser\<close> and
  \<open>authToken\<close> are reset as well; they are part of the page, which the redirect
  replaces.
\<close>

definition logout_user_auth :: "int \<Rightarrow> browser \<Rightarrow> browser" where
  "logout_user_auth now b =
     b\<lparr>localStorage := (localStorage b)(''authToken'' := None, ''currentUser'' := None),
       cookies := document_cookie_assign now clear_authToken_cookie (cookies b),
       location := ''/auth''\<rparr>"

text \<open>\<open>logout\<close> of src/frontend/scripts/dashboard.js.\<close>

definition logout_dashboard :: "browser \<Rightarrow> browser" where
  "logout_dashboard b =
     b\<lparr>localStorage := (localStorage b)(''authToken'' := None, ''currentUser'' := None),
       location := ''/login''\<rparr>"

text \<open>\<open>logout\<close> of the dashboard script with sorting and PDF export.\<close>

definition logout_dashboard_pdf :: "int \<Rightarrow> browser \<Rightarrow> browser" where
  "logout_dashboard_pdf now b =
     b\<lparr>localStorage := (localStorage b)(''authToken'' := None, ''currentUser'' := None),
       cookies := document_cookie_assign now clear_authToken_cookie (cookies b),
       location := ''/login''\<rparr>"

text \<open>
  The sign-in form (auth.js) after its checks passed and \<open>fetch\<close> returned: the
  response with its parsed body, or the exception of \<open>fetch\<close> or \<open>response.json()\<close>.
  \<open>user_json\<close> is \<open>JSON.stringify(data.user)\<close>; \<open>localStorage.setItem\<close> stores the
  string conversion of its argument, which is \<open>undefined\<close> for an absent token.
\<close>

definition js_String :: "string option \<Rightarrow> string" where
  "js_String v = (case v of None \<Rightarrow> ''undefined'' | Some s \<Rightarrow> s)"

record auth_response =
  ok :: bool
  data_token :: "string option"
  user_json :: string
  data_error :: "string option"

record auth_page =
  isLogin :: bool
  error_messages :: "string \<rightharpoonup> string"
  page_browser :: browser

definition showError :: "string \<Rightarrow> string \<Rightarrow> auth_page \<Rightarrow> auth_page" where
  "showError input message s = s\<lparr>error_messages := (error_messages s)(input \<mapsto> message)\<rparr>"

text \<open>\<open>toggleBtns[0].click()\<close>: the form switches to login and its errors are cleared.\<close>

definition click_login_toggle :: "auth_page \<Rightarrow> auth_page" where
  "click_login_toggle s = s\<lparr>isLogin := True, error_messages := Map.empty\<rparr>"

definition on_auth_response :: "int \<Rightarrow> js_error + auth_response \<Rightarrow> auth_page \<Rightarrow> auth_page" where
  "on_auth_response now response s =
     (case response of
        Inl e \<Rightarrow>
          showError (if isLogin s then ''username'' else ''email'')
            ''An error occurred. Please try again.'' s
      | Inr r \<Rightarrow>
          if ok r then
            (if isLogin s then
               s\<lparr>page_browser :=
                   (page_browser s)
                     \<lparr>localStorage := (localStorage (page_browser s))
                          (''authToken'' \<mapsto> js_String (data_token r), ''currentUser'' \<mapsto> user_json r),
                       cookies := setCookie now ''authToken'' (data_token r) 7
                                    (cookies (page_browser s)),
                       location := ''/''\<rparr>\<rparr>
             else
               showError ''username'' ''Registration successful! Please login with your username.''
                 (click_login_toggle s))
          else
            showError (if isLogin s then ''username'' else ''email'')
              (js_or (data_error r) (if isLogin s then ''Login failed'' else ''Registration failed'')) s)"

text \<open>
  What the setter guarantees of every cookie it stores, and so of the store: a name that
  is not empty, has no \<open>;\<close> or \<open>=\<close> and does not start with a space, a value without
  \<open>;\<close>, and one cookie per name.
\<close>

definition cookie_ok :: "cookie \<Rightarrow> bool" where
  "cookie_ok c = (cookie_name c \<noteq> [] \<and> hd (cookie_name c) \<noteq> CHR '' ''
     \<and> CHR '';'' \<notin> set (cookie_name c) \<and> CHR ''='' \<notin> set (cookie_name c)
     \<and> CHR '';'' \<notin> set (cookie_value c))"

definition store_ok :: "cookie list \<Rightarrow> bool" where
  "store_ok jar = (list_all cookie_ok jar \<and> distinct (map cookie_name jar))"

section \<open>Saving a calculation (user-auth.js, text-mode.js)\<close>

text \<open>The module variables of user-auth.js that \<open>saveCurrentCalculation\<close> reads.\<close>

record auth_state =
  isAuthenticated :: bool
  authToken :: "string option"

text \<open>
  What \<open>saveCurrentCalculation\<close> reads of the page: \<open>window.currentMode\<close>, and for each
  element \<open>None\<close> when it is missing, else the text it holds (\<open>value\<close> of \<open>#latex-input\<close> and
  of \<open>#operation-type\<close>, \<open>textContent\<close> of \<open>#drawing-latex-result\<close>, of
  \<open>.solution-container\<close> and of \<open>.explanation-container\<close>, \<open>dataset.latex\<close> of \<open>#result\<close>).
\<close>

record save_dom =
  window_currentMode :: "string option"
  dom_latex_input :: "string option"
  dom_drawing_latex_result :: "string option"
  dom_result_latex :: "string option"
  dom_solution_container :: "string option"
  dom_operation_type :: "string option"
  dom_explanation_container :: "string option"

record save_args =
  manualLatexInput :: "string option"
  manualSolution :: "string option"
  manualOperationType :: "string option"
  manualExplanation :: "string option"
  manualTitle :: "string option"

text \<open>\<open>saveCurrentCalculation()\<close>: every parameter takes its default \<open>null\<close>.\<close>

definition no_args :: save_args where
  "no_args = \<lparr>manualLatexInput = None, manualSolution = None, manualOperationType = None,
              manualExplanation = None, manualTitle = None\<rparr>"

text \<open>The body of \<open>POST /api/calculations\<close>.\<close>

record save_request =
  req_latex_input :: string
  req_operation_type :: string
  req_solution :: string
  req_ai_explanation :: string
  req_title :: "string option"

record save_response =
  save_ok :: bool
  data_success :: bool
  save_error :: "string option"

text \<open>
  What the user and the server see of a call, in order. (The label of the save button,
  set to \<open>Saved!\<close> for two seconds after an automatic save, is left out.)
\<close>

datatype effect =
    Alert string
  | Prompt string
  | Post save_request
  | ConsoleError string
  | ConsoleLog string

text \<open>
  The input when no argument gives it. \<open>document.getElementById('latex-input').value\<close>
  throws when the element is missing.
\<close>

definition dom_latexInput :: "save_dom \<Rightarrow> js_error + string" where
  "dom_latexInput doc =
     (if window_currentMode doc = Some ''text''
      then (case dom_latex_input doc of None \<Rightarrow> Inl TypeError | Some v \<Rightarrow> Inr v)
      else (case dom_drawing_latex_result doc of
              Some t \<Rightarrow> Inr t
            | None \<Rightarrow> Inr (js_or (dom_result_latex doc) [])))"

text \<open>
  After the request: the server's answer or the exception of \<open>fetch\<close> or
  \<open>response.json()\<close>; \<open>auto\<close> is the truth of \<open>manualLatexInput\<close>.
\<close>

definition after_save :: "bool \<Rightarrow> js_error + save_response \<Rightarrow> effect list" where
  "after_save auto server =
     (case server of
        Inl e \<Rightarrow>
          ConsoleError ''Error saving calculation:''
            # (if \<not> auto then [Alert ''Error saving calculation. Please try again.''] else [])
      | Inr data \<Rightarrow>
          if save_ok data \<and> data_success data then
            (if \<not> auto then [Alert ''Calculation saved successfully! View it in My Calculations.'']
             else [ConsoleLog ''Calculation auto-saved successfully''])
          else
            ConsoleError (''Error saving calculation: '' @ js_or (save_error data) ''Unknown error'')
              # (if \<not> auto
                 then [Alert (''Error saving calculation: '' @ js_or (save_error data) ''Unknown error'')]
                 else []))"

text \<open>
  \<open>saveCurrentCalculation\<close> (user-auth.js, the version with parameters). \<open>answer\<close> is what
  \<open>prompt\<close> returns, \<open>server\<close> the outcome of the request.
\<close>

definition saveCurrentCalculation ::
  "auth_state \<Rightarrow> save_dom \<Rightarrow> string option \<Rightarrow> js_error + save_response \<Rightarrow> save_args
     \<Rightarrow> js_error + effect list" where
  "saveCurrentCalculation a doc answer server args =
     (if \<not> isAuthenticated a \<or> \<not> truthy (authToken a)
      then Inr [Alert ''Please log in to save calculations'']
      else
        (case (if truthy (manualLatexInput args) then Inr (the (manualLatexInput args))
               else dom_latexInput doc) of
           Inl e \<Rightarrow> Inl e
         | Inr latexInput \<Rightarrow>
             let solution = js_or (manualSolution args)
                   (case dom_solution_container doc of Some t \<Rightarrow> js_trim t | None \<Rightarrow> [])
             in
               if latexInput = [] \<or> solution = [] then
                 Inr (if \<not> truthy (manualLatexInput args) \<and> \<not> truthy (manualSolution args)
                      then [Alert ''No calculation to save''] else [])
               else
                 let operationType = js_or (manualOperationType args)
                       (case dom_operation_type doc of Some v \<Rightarrow> v | None \<Rightarrow> ''solve'');
                     explanation = js_or (manualExplanation args)
                       (case dom_explanation_container doc of Some t \<Rightarrow> js_trim t | None \<Rightarrow> []);
                     prompted = (\<not> truthy (manualTitle args) \<and> \<not> truthy (manualLatexInput args));
                     title = (if prompted then answer else manualTitle args)
                 in Inr ((if prompted
                          then [Prompt ''Enter a title for this calculation (optional):'']
                          else [])
                         @ [Post \<lparr>req_latex_input = latexInput, req_operation_type = operationType,
                                   req_solution = solution, req_ai_explanation = explanation,
                                   req_title = title\<rparr>]
                         @ after_save (truthy (manualLatexInput args)) server)))"

text \<open>
  \<open>s.charAt(0).toUpperCase() + s.slice(1)\<close>. The operation types of the page are ASCII;
  \<open>toUpperCase\<close> is modelled on ASCII letters and leaves every other code unit as it is.
\<close>

definition toUpperCase_char :: "char \<Rightarrow> char" where
  "toUpperCase_char c = (if is_lower c then char_of (of_char c - (32::nat)) else c)"

definition capitalize :: "string \<Rightarrow> string" where
  "capitalize s = (case s of [] \<Rightarrow> [] | c # cs \<Rightarrow> toUpperCase_char c # cs)"

text \<open>
  \<open>TextMode.autoSaveCalculation\<close>, called by the timer that \<open>displaySolution\<close> sets.
  \<open>currentLatex\<close> is the field of the text mode, \<open>now\<close> is
  \<open>new Date().toLocaleString()\<close>, \<open>save_available\<close> is
  \<open>typeof window.saveCurrentCalculation === 'function'\<close>.
\<close>

definition solution_truthy :: "solution_field option \<Rightarrow> bool" where
  "solution_truthy v = (case v of None \<Rightarrow> False | Some (SolStr s) \<Rightarrow> s \<noteq> [] | Some (SolArr xs) \<Rightarrow> True)"

definition solutionText_of :: "solution_field \<Rightarrow> string" where
  "solutionText_of v = (case v of SolArr xs \<Rightarrow> join '', '' xs | SolStr s \<Rightarrow> s)"

definition autoSave_title :: "string \<Rightarrow> string \<Rightarrow> string" where
  "autoSave_title operationType now = capitalize operationType @ '' - '' @ now"

definition autoSaveCalculation ::
  "auth_state \<Rightarrow> save_dom \<Rightarrow> string option \<Rightarrow> js_error + save_response \<Rightarrow> bool \<Rightarrow> string
     \<Rightarrow> string \<Rightarrow> solve_response \<Rightarrow> js_error + effect list" where
  "autoSaveCalculation a doc answer server save_available now currentLatex solution =
     (let latexInput = currentLatex;
          operationType = (case dom_operation_type doc of Some v \<Rightarrow> v | None \<Rightarrow> ''solve'')
      in
        if latexInput = [] \<or> \<not> solution_truthy (resp_solution solution)
        then Inr [ConsoleError ''Missing required data for auto-save'']
        else
          let solutionText = solutionText_of (the (resp_solution solution));
              explanation = (case resp_ai_steps solution of
                               Some steps \<Rightarrow> join [CHR 0x0A] steps | None \<Rightarrow> []);
              title = autoSave_title operationType now
          in
            if save_available
            then saveCurrentCalculation a doc answer server
                   \<lparr>manualLatexInput = Some latexInput, manualSolution = Some solutionText,
                    manualOperationType = Some operationType, manualExplanation = Some explanation,
                    manualTitle = Some title\<rparr>
            else Inr [ConsoleError ''saveCurrentCalculation function not available globally''])"

text \<open>
  A solve in text mode, from the response to the end of the auto-save timer: the page
  after \<open>displaySolution\<close> and what the timer did, if it was set.
\<close>

definition TextMode_solved ::
  "katex \<Rightarrow> window \<Rightarrow> auth_state \<Rightarrow> save_dom \<Rightarrow> string option \<Rightarrow> js_error + save_response
     \<Rightarrow> string \<Rightarrow> string \<Rightarrow> solve_response \<Rightarrow> page \<Rightarrow> js_error + (page \<times> effect list)" where
  "TextMode_solved k w a doc answer server now currentLatex solution p =
     (case TextMode_displaySolution k w solution p of
        Inl e \<Rightarrow> Inl e
      | Inr (p', timer) \<Rightarrow>
          if timer
          then (case autoSaveCalculation a doc answer server (window_saveCurrentCalculation w)
                       now currentLatex solution of
                  Inl e \<Rightarrow> Inr (p', [])
                | Inr effects \<Rightarrow> Inr (p', effects))
          else Inr (p', []))"

text \<open>
  \<open>textContent\<close> of \<open>.solution-container\<close>: the texts of its children in order. The
  header and a result written through \<open>textContent\<close> hold their string; the text of
  rendered or assigned markup and of the steps section is the browser's, given by the
  parameters \<open>html_text\<close> and \<open>steps_text\<close>.
\<close>

fun node_textContent :: "(string \<Rightarrow> string) \<Rightarrow> (string list \<Rightarrow> string) \<Rightarrow> node \<Rightarrow> string" where
  "node_textContent html_text steps_text (Header h) = h"
| "node_textContent html_text steps_text (Result (Rendered html)) = html_text html"
| "node_textContent html_text steps_text (Result (InnerHTML markup)) = html_text markup"
| "node_textContent html_text steps_text (Result (TextContent s)) = s"
| "node_textContent html_text steps_text (Steps steps) = steps_text steps"

definition container_textContent ::
  "(string \<Rightarrow> string) \<Rightarrow> (string list \<Rightarrow> string) \<Rightarrow> page \<Rightarrow> string option" where
  "container_textContent html_text steps_text p =
     map_option (\<lambda>nodes. concat (map (node_textContent html_text steps_text) nodes))
       (solution_container p)"

text \<open>
  The same solve, where the \<open>.solution-container\<close> that \<open>saveCurrentCalculation\<close> finds
  when the timer runs is the one \<open>displaySolution\<close> has just filled.
\<close>

definition TextMode_solved_on_page ::
  "(string \<Rightarrow> string) \<Rightarrow> (string list \<Rightarrow> string) \<Rightarrow> katex \<Rightarrow> window \<Rightarrow> auth_state \<Rightarrow> save_dom
     \<Rightarrow> string option \<Rightarrow> js_error + save_response \<Rightarrow> string \<Rightarrow> string \<Rightarrow> solve_response \<Rightarrow> page
     \<Rightarrow> js_error + (page \<times> effect list)" where
  "TextMode_solved_on_page html_text steps_text k w a doc answer server now currentLatex solution p =
     (case TextMode_displaySolution k w solution p of
        Inl e \<Rightarrow> Inl e
      | Inr (p', timer) \<Rightarrow>
          if timer
          then (case autoSaveCalculation a
                       (doc\<lparr>dom_solution_container := container_textContent html_text steps_text p'\<rparr>)
                       answer server (window_saveCurrentCalculation w) now currentLatex solution of
                  Inl e \<Rightarrow> Inr (p', [])
                | Inr effects \<Rightarrow> Inr (p', effects))
          else Inr (p', []))"

text \<open>
  A solve in draw mode: \<open>DrawMode.displaySolution\<close> sets no timer and calls nothing that
  saves.
\<close>

definition DrawMode_solved :: "katex \<Rightarrow> solve_response \<Rightarrow> page \<Rightarrow> js_error + (page \<times> effect list)" where
  "DrawMode_solved k solution p =
     (case DrawMode_displaySolution k solution p of
        Inl e \<Rightarrow> Inl e
      | Inr p' \<Rightarrow> Inr (p', []))"

section \<open>Regular expressions as the converter uses them (text-mode.js)\<close>

text \<open>
  The regular expressions of \<open>processInputToLatex\<close> are built from character classes,
  sequence, alternation, an optional part, capturing groups, the end anchor, and greedy
  or lazy repetition of one character class. The engine is the platform's; the model
  follows its backtracking order: \<open>matches r s\<close> lists every way \<open>r\<close> matches a prefix of
  \<open>s\<close>, the one the engine tries first at the head, each with the number of code units
  it takes and the captures of the groups of \<open>r\<close> in the order of their opening
  parentheses (\<open>None\<close> for a group that took no part).
\<close>

datatype regex =
    Cls "char \<Rightarrow> bool"
  | Seq regex regex
  | Alt regex regex
  | Star "char \<Rightarrow> bool"
  | Plus "char \<Rightarrow> bool"
  | LazyStar "char \<Rightarrow> bool"
  | Opt regex
  | Group regex
  | EndAnchor

primrec ngroups :: "regex \<Rightarrow> nat" where
  "ngroups (Cls P) = 0"
| "ngroups (Seq a b) = ngroups a + ngroups b"
| "ngroups (Alt a b) = ngroups a + ngroups b"
| "ngroups (Star P) = 0"
| "ngroups (Plus P) = 0"
| "ngroups (LazyStar P) = 0"
| "ngroups (Opt a) = ngroups a"
| "ngroups (Group a) = Suc (ngroups a)"
| "ngroups EndAnchor = 0"

primrec matches :: "regex \<Rightarrow> string \<Rightarrow> (nat \<times> string option list) list" where
  "matches (Cls P) s = (case s of [] \<Rightarrow> [] | c # _ \<Rightarrow> if P c then [(1, [])] else [])"
| "matches (Seq a b) s =
     concat (map (\<lambda>(n, ca). map (\<lambda>(m, cb). (n + m, ca @ cb)) (matches b (drop n s)))
                 (matches a s))"
| "matches (Alt a b) s =
     map (\<lambda>(n, ca). (n, ca @ replicate (ngroups b) None)) (matches a s)
     @ map (\<lambda>(n, cb). (n, replicate (ngroups a) None @ cb)) (matches b s)"
| "matches (Star P) s = map (\<lambda>n. (n, [])) (rev [0 ..< Suc (length (takeWhile P s))])"
| "matches (Plus P) s = map (\<lambda>n. (n, [])) (rev [1 ..< Suc (length (takeWhile P s))])"
| "matches (LazyStar P) s = map (\<lambda>n. (n, [])) [0 ..< Suc (length (takeWhile P s))]"
| "matches (Opt a) s = matches a s @ [(0, replicate (ngroups a) None)]"
| "matches (Group a) s = map (\<lambda>(n, ca). (n, Some (take n s) # ca)) (matches a s)"
| "matches EndAnchor s = (if s = [] then [(0, [])] else [])"

text \<open>A sequence of several parts; the empty sequence matches the empty string.\<close>

fun seq :: "regex list \<Rightarrow> regex" where
  "seq [] = Opt EndAnchor"
| "seq [r] = r"
| "seq (r # rs) = Seq r (seq rs)"

text \<open>\<open>$n\<close> in a replacement string: the text of group \<open>n\<close>, empty when it took no part.\<close>

definition grp :: "string option list \<Rightarrow> nat \<Rightarrow> string" where
  "grp caps n =
     (if 0 < n \<and> n \<le> length caps then (case caps ! (n - 1) of Some g \<Rightarrow> g | None \<Rightarrow> [])
      else [])"

text \<open>
  \<open>String.prototype.replace\<close> with a regular expression of flag \<open>g\<close>: the matches are
  found left to right, each search starting where the last match ended; after an empty
  match the next code unit is copied and the search goes on behind it. The replacement
  gets the matched text and the captures.
\<close>

fun replace_global :: "regex \<Rightarrow> (string \<Rightarrow> string option list \<Rightarrow> string) \<Rightarrow> string \<Rightarrow> string" where
  "replace_global re f [] =
     (case matches re [] of [] \<Rightarrow> [] | (n, caps) # _ \<Rightarrow> f [] caps)"
| "replace_global re f (c # cs) =
     (case matches re (c # cs) of
        [] \<Rightarrow> c # replace_global re f cs
      | (n, caps) # _ \<Rightarrow>
          (case n of
             0 \<Rightarrow> f [] caps @ c # replace_global re f cs
           | Suc m \<Rightarrow> f (take n (c # cs)) caps @ replace_global re f (drop m cs)))"

text \<open>
  \<open>String.prototype.match\<close> with a regular expression without flag \<open>g\<close>: the first
  position where it matches; the result is the captures.
\<close>

fun js_match :: "regex \<Rightarrow> string \<Rightarrow> string option list option" where
  "js_match re [] = (case matches re [] of [] \<Rightarrow> None | (n, caps) # _ \<Rightarrow> Some caps)"
| "js_match re (c # cs) =
     (case matches re (c # cs) of [] \<Rightarrow> js_match re cs | (n, caps) # _ \<Rightarrow> Some caps)"

text \<open>\<open>s.substring(start, end)\<close>.\<close>

definition substring :: "string \<Rightarrow> nat \<Rightarrow> nat \<Rightarrow> string" where
  "substring s start end' = take (max start end' - min start end') (drop (min start end') s)"

text \<open>The character classes: \<open>[a-zA-Z]\<close>, \<open>[a-zA-Z0-9]\<close>, and \<open>.\<close>, which is every code
  unit but a line terminator.\<close>

definition is_letter :: "char \<Rightarrow> bool" where
  "is_letter c = (is_lower c \<or> is_upper c)"

definition is_alnum :: "char \<Rightarrow> bool" where
  "is_alnum c = (is_letter c \<or> is_digit c)"

definition is_dot :: "char \<Rightarrow> bool" where
  "is_dot c = (c \<noteq> CHR 0x0A \<and> c \<noteq> CHR 0x0D)"

text \<open>\<open>/([0-9a-zA-Z\)}])(\s*)\*(\s*)([0-9a-zA-Z\({])/g\<close>\<close>

definition re_multiplication :: regex where
  "re_multiplication =
     seq [Group (Cls (\<lambda>c. is_digit c \<or> is_letter c \<or> c = CHR '')'' \<or> c = CHR ''}'')),
          Group (Star is_js_space),
          Cls (\<lambda>c. c = CHR ''*''),
          Group (Star is_js_space),
          Group (Cls (\<lambda>c. is_digit c \<or> is_letter c \<or> c = CHR ''('' \<or> c = CHR ''{''))]"

text \<open>\<open>/([0-9])([a-zA-Z])/g\<close>\<close>

definition re_number_variable :: regex where
  "re_number_variable = seq [Group (Cls is_digit), Group (Cls is_letter)]"

text \<open>\<open>/([a-zA-Z0-9\}])([a-zA-Z]+\^)/g\<close>\<close>

definition re_function_like :: regex where
  "re_function_like =
     seq [Group (Cls (\<lambda>c. is_letter c \<or> is_digit c \<or> c = CHR ''}'')),
          Group (seq [Plus is_letter, Cls (\<lambda>c. c = CHR ''^'')])]"

text \<open>\<open>/\^(-?\(.*?\)|\([^)]*\))/g\<close>\<close>

definition re_exponent_parens :: regex where
  "re_exponent_parens =
     seq [Cls (\<lambda>c. c = CHR ''^''),
          Group (Alt (seq [Opt (Cls (\<lambda>c. c = CHR ''-'')), Cls (\<lambda>c. c = CHR ''(''),
                           LazyStar is_dot, Cls (\<lambda>c. c = CHR '')'')])
                     (seq [Cls (\<lambda>c. c = CHR ''(''), Star (\<lambda>c. c \<noteq> CHR '')''),
                           Cls (\<lambda>c. c = CHR '')'')]))]"

text \<open>\<open>/\^-([a-zA-Z0-9]+)/g\<close>\<close>

definition re_negative_exponent :: regex where
  "re_negative_exponent =
     seq [Cls (\<lambda>c. c = CHR ''^''), Cls (\<lambda>c. c = CHR ''-''), Group (Plus is_alnum)]"

text \<open>\<open>/\^([a-zA-Z0-9]+)/g\<close>\<close>

definition re_exponent :: regex where
  "re_exponent = seq [Cls (\<lambda>c. c = CHR ''^''), Group (Plus is_alnum)]"

text \<open>\<open>/(.*)\[(.*),(.*)\]$/\<close>\<close>

definition re_domain :: regex where
  "re_domain =
     seq [Group (Star is_dot), Cls (\<lambda>c. c = CHR ''[''), Group (Star is_dot),
          Cls (\<lambda>c. c = CHR '',''), Group (Star is_dot), Cls (\<lambda>c. c = CHR '']''), EndAnchor]"

text \<open>
  \<open>TextMode.processInputToLatex\<close>. \<open>operation_select\<close> is the value of \<open>#operation-type\<close>,
  \<open>None\<close> when the element is missing. The six replacements, in the order of the
  source, then the domain of a Fourier series.
\<close>

definition rewrite_exponents :: "string \<Rightarrow> string" where
  "rewrite_exponents input =
     (let latex1 = replace_global re_multiplication
                     (\<lambda>m g. grp g 1 @ grp g 2 @ grp g 3 @ grp g 4) input;
          latex2 = replace_global re_number_variable (\<lambda>m g. grp g 1 @ '' '' @ grp g 2) latex1;
          latex3 = replace_global re_function_like (\<lambda>m g. grp g 1 @ '' '' @ grp g 2) latex2;
          latex4 = replace_global re_exponent_parens
                     (\<lambda>m g. ''^{'' @ substring m 2 (length m - 1) @ ''}'') latex3;
          latex5 = replace_global re_negative_exponent (\<lambda>m g. ''^{-'' @ grp g 1 @ ''}'') latex4;
          latex6 = replace_global re_exponent (\<lambda>m g. ''^{'' @ grp g 1 @ ''}'') latex5
      in latex6)"

definition processInputToLatex :: "string option \<Rightarrow> string \<Rightarrow> string" where
  "processInputToLatex operation_select input =
     (let operationType = (case operation_select of Some v \<Rightarrow> v | None \<Rightarrow> ''solve'');
          latex = rewrite_exponents input
      in if operationType = ''fourier''
         then (case js_match re_domain latex of
                 Some domainMatch \<Rightarrow>
                   grp domainMatch 1 @ '' '' @ [backslash] @ ''text{ on } ['' @ grp domainMatch 2
                     @ '','' @ grp domainMatch 3 @ '']''
               | None \<Rightarrow> latex)
         else latex)"

text \<open>
  A string has a bare exponent when some \<open>^\<close> in it is followed at once by a letter or a
  digit.
\<close>

fun bare_exponent :: "string \<Rightarrow> bool" where
  "bare_exponent (a # b # s) = ((a = CHR ''^'' \<and> is_alnum b) \<or> bare_exponent (b # s))"
| "bare_exponent s = False"

section \<open>Rendering several solutions\<close>







section \<open>A rendering failure does not stop the display\<close>

lemma displaySolution_shown:
  assumes "has_main_content p \<or> solution_container p \<noteq> None"
  shows "\<exists>p'. DrawMode_displaySolution k solution p = Inr p'
            \<and> shown_result p' = Some (result_of k solution)"
  using assms by (auto simp: DrawMode_displaySolution_def shown_result_def)

lemma result_of_single_failure:
  assumes "\<not> truthy (resp_error solution)"
    and "resp_solution solution = Some (SolStr s) \<or> resp_solution solution = Some (SolArr [s])"
    and "k s = Inl e"
  shows "result_of k solution = TextContent s"
  using assms by (auto simp: result_of_def render_or_def)

text \<open>
  C9. A response without error whose solution is the string \<open>s\<close> (or the one-element
  list of it), on a page that has the container or \<open>#main-content\<close> to put it under:
  when \<open>katex.render\<close> throws on \<open>s\<close>, both display routines return normally and the
  result element holds \<open>s\<close> as its text content.
\<close>

theorem katex_failure_shows_raw_text:
  assumes "\<not> truthy (resp_error solution)"
    and "resp_solution solution = Some (SolStr s) \<or> resp_solution solution = Some (SolArr [s])"
    and "k s = Inl e"
    and "has_main_content p \<or> solution_container p \<noteq> None"
  shows "(\<exists>p'. DrawMode_displaySolution k solution p = Inr p'
            \<and> shown_result p' = Some (TextContent s))
       \<and> (\<exists>p' timer. TextMode_displaySolution k w solution p = Inr (p', timer)
            \<and> shown_result p' = Some (TextContent s))"
proof -
  from displaySolution_shown [OF assms(4)] obtain p' where
    p': "DrawMode_displaySolution k solution p = Inr p'"
        "shown_result p' = Some (result_of k solution)"
    by blast
  have "result_of k solution = TextContent s"
    using assms(1-3) by (rule result_of_single_failure)
  with p' show ?thesis
    by (simp add: TextMode_displaySolution_def)
qed

theorem katex_failure_shows_raw_text_witness:
  "(\<exists>p'. DrawMode_displaySolution (\<lambda>s. Inl ParseError)
            \<lparr>resp_error = None, resp_solution = Some (SolStr ''x^''), resp_ai_steps = None\<rparr>
            \<lparr>has_main_content = True, solution_container = None\<rparr> = Inr p'
          \<and> shown_result p' = Some (TextContent ''x^''))
   \<and> (\<exists>p' timer. TextMode_displaySolution (\<lambda>s. Inl ParseError)
            \<lparr>window_isAuthenticated = True, window_saveCurrentCalculation = True\<rparr>
            \<lparr>resp_error = None, resp_solution = Some (SolStr ''x^''), resp_ai_steps = None\<rparr>
            \<lparr>has_main_content = True, solution_container = None\<rparr> = Inr (p', timer)
          \<and> shown_result p' = Some (TextContent ''x^''))"
  using katex_failure_shows_raw_text
      [of "\<lparr>resp_error = None, resp_solution = Some (SolStr ''x^''), resp_ai_steps = None\<rparr>"
          "''x^''" "\<lambda>s. Inl ParseError" ParseError
          "\<lparr>has_main_content = True, solution_container = None\<rparr>"
          "\<lparr>window_isAuthenticated = True, window_saveCurrentCalculation = True\<rparr>"]
  by (simp add: truthy_def)

section \<open>Sorting the saved calculations\<close>

lemma mset_insert_by: "mset (insert_by cmp x ys) = add_mset x (mset ys)"
  by (induction ys) auto

lemma mset_js_sort: "mset (js_sort cmp xs) = mset xs"
  by (induction xs) (auto simp: js_sort_def mset_insert_by)

lemma set_insert_by: "set (insert_by cmp x ys) = insert x (set ys)"
  by (induction ys) auto

lemma set_js_sort: "set (js_sort cmp xs) = set xs"
  by (induction xs) (auto simp: js_sort_def set_insert_by)

lemma sorted_insert_by:
  fixes key :: "'a \<Rightarrow> 'b::linorder"
  assumes "\<forall>y\<in>set ys. (cmp x y \<le> 0) = (key x \<le> key y)"
    and "sorted_wrt (\<lambda>a b. key a \<le> key b) ys"
  shows "sorted_wrt (\<lambda>a b. key a \<le> key b) (insert_by cmp x ys)"
  using assms
proof (induction ys)
  case Nil
  then show ?case by simp
next
  case (Cons y ys)
  show ?case
  proof (cases "cmp x y \<le> 0")
    case True
    with Cons.prems have "key x \<le> key y" by simp
    with Cons.prems(2) True show ?thesis by auto
  next
    case False
    with Cons.prems have "key y \<le> key x" by auto
    moreover have "sorted_wrt (\<lambda>a b. key a \<le> key b) (insert_by cmp x ys)"
      using Cons by simp
    ultimately show ?thesis
      using False Cons.prems(2) by (auto simp: set_insert_by)
  qed
qed

lemma sorted_js_sort:
  fixes key :: "'a \<Rightarrow> 'b::linorder"
  assumes "\<forall>x\<in>set xs. \<forall>y\<in>set xs. (cmp x y \<le> 0) = (key x \<le> key y)"
  shows "sorted_wrt (\<lambda>a b. key a \<le> key b) (js_sort cmp xs)"
  using assms
proof (induction xs)
  case Nil
  then show ?case by (simp add: js_sort_def)
next
  case (Cons x xs)
  have "sorted_wrt (\<lambda>a b. key a \<le> key b) (js_sort cmp xs)"
    using Cons by simp
  moreover have "\<forall>y\<in>set (js_sort cmp xs). (cmp x y \<le> 0) = (key x \<le> key y)"
    using Cons.prems by (simp add: set_js_sort)
  ultimately have "sorted_wrt (\<lambda>a b. key a \<le> key b) (insert_by cmp x (js_sort cmp xs))"
    by (rule sorted_insert_by [rotated])
  then show ?case by (simp add: js_sort_def)
qed

lemma date_diff_valid:
  assumes "parse (created_at a) \<noteq> None" and "parse (created_at b) \<noteq> None"
  shows "nan_to_zero (date_diff parse (created_at a) (created_at b))
           = created_time parse a - created_time parse b"
  using assms by (auto simp: nan_to_zero_def date_diff_def created_time_def)

lemma localeCompare_le:
  "(localeCompare collate a b \<le> 0) = (collate a \<le> collate b)"
  by (auto simp: localeCompare_def)

lemma sorted_date_desc:
  assumes "\<forall>c\<in>set cs. parse (created_at c) \<noteq> None"
  shows "sorted_wrt (\<lambda>a b. created_time parse b \<le> created_time parse a)
           (sortCalculations parse collate cs ''date-desc'')"
proof -
  have "sorted_wrt (\<lambda>a b. - created_time parse a \<le> - created_time parse b)
          (js_sort (\<lambda>a b. nan_to_zero (date_diff parse (created_at b) (created_at a))) cs)"
    by (rule sorted_js_sort) (use assms in \<open>auto simp: date_diff_valid\<close>)
  then show ?thesis by (simp add: sortCalculations_def)
qed

lemma sorted_date_asc:
  assumes "\<forall>c\<in>set cs. parse (created_at c) \<noteq> None"
  shows "sorted_wrt (\<lambda>a b. created_time parse a \<le> created_time parse b)
           (sortCalculations parse collate cs ''date-asc'')"
proof -
  have "sorted_wrt (\<lambda>a b. created_time parse a \<le> created_time parse b)
          (js_sort (\<lambda>a b. nan_to_zero (date_diff parse (created_at a) (created_at b))) cs)"
    by (rule sorted_js_sort) (use assms in \<open>auto simp: date_diff_valid\<close>)
  then show ?thesis by (simp add: sortCalculations_def)
qed

lemma sorted_type:
  "sorted_wrt (\<lambda>a b. collate (operation_type a) \<le> collate (operation_type b))
     (sortCalculations parse collate cs ''type'')"
proof -
  have "sorted_wrt (\<lambda>a b. collate (operation_type a) \<le> collate (operation_type b))
          (js_sort (\<lambda>a b. localeCompare collate (operation_type a) (operation_type b)) cs)"
    by (rule sorted_js_sort) (simp add: localeCompare_le)
  then show ?thesis by (simp add: sortCalculations_def)
qed

lemma mset_sortCalculations: "mset (sortCalculations parse collate cs opt) = mset cs"
  by (simp add: sortCalculations_def mset_js_sort)

text \<open>
  C8 (amended). \<open>sortCalculations\<close> returns a permutation of every list of calculations, in the
  collation order of \<open>operation_type\<close> for \<open>type\<close>, and the list itself for an option
  other than the three it knows. For a list whose \<open>created_at\<close> all parse as dates, the
  result is in descending order of creation time for \<open>date-desc\<close> and in ascending order
  for \<open>date-asc\<close>.
\<close>

theorem sortCalculations_sorted_permutation:
  "mset (sortCalculations parse collate cs opt) = mset cs
   \<and> ((\<forall>c\<in>set cs. parse (created_at c) \<noteq> None) \<longrightarrow>
        sorted_wrt (\<lambda>a b. created_time parse b \<le> created_time parse a)
          (sortCalculations parse collate cs ''date-desc'')
      \<and> sorted_wrt (\<lambda>a b. created_time parse a \<le> created_time parse b)
          (sortCalculations parse collate cs ''date-asc''))
   \<and> sorted_wrt (\<lambda>a b. collate (operation_type a) \<le> collate (operation_type b))
       (sortCalculations parse collate cs ''type'')
   \<and> (opt \<notin> {''date-desc'', ''date-asc'', ''type''} \<longrightarrow>
        sortCalculations parse collate cs opt = cs)"
proof -
  have "sorted_wrt (\<lambda>a b. created_time parse b \<le> created_time parse a)
          (sortCalculations parse collate cs ''date-desc'')
      \<and> sorted_wrt (\<lambda>a b. created_time parse a \<le> created_time parse b)
          (sortCalculations parse collate cs ''date-asc'')"
    if "\<forall>c\<in>set cs. parse (created_at c) \<noteq> None"
    by (simp add: sorted_date_desc [OF that] sorted_date_asc [OF that])
  moreover have "opt \<notin> {''date-desc'', ''date-asc'', ''type''} \<longrightarrow>
      sortCalculations parse collate cs opt = cs"
    by (simp add: sortCalculations_def)
  ultimately show ?thesis
    using sorted_type [of collate parse cs] mset_sortCalculations [of parse collate cs opt]
    by blast
qed

theorem sortCalculations_sorted_permutation_witness:
  "mset (sortCalculations (\<lambda>s. if s = ''2025-01-01'' then Some 1 else if s = ''2025-01-02'' then Some 2 else None) length
      [\<lparr>calc_id = ''1'', calc_title = None, operation_type = ''solve'', latex_input = ''x=1'',
         calc_solution = ''1'', ai_explanation = None, created_at = ''2025-01-01''\<rparr>,
       \<lparr>calc_id = ''2'', calc_title = None, operation_type = ''fourier'', latex_input = ''x'',
         calc_solution = ''0'', ai_explanation = None, created_at = ''2025-01-02''\<rparr>] ''name'')
    = mset
      [\<lparr>calc_id = ''1'', calc_title = None, operation_type = ''solve'', latex_input = ''x=1'',
         calc_solution = ''1'', ai_explanation = None, created_at = ''2025-01-01''\<rparr>,
       \<lparr>calc_id = ''2'', calc_title = None, operation_type = ''fourier'', latex_input = ''x'',
         calc_solution = ''0'', ai_explanation = None, created_at = ''2025-01-02''\<rparr>]
   \<and> sorted_wrt (\<lambda>a b. created_time (\<lambda>s. if s = ''2025-01-01'' then Some 1 else if s = ''2025-01-02'' then Some 2 else None) b
                     \<le> created_time (\<lambda>s. if s = ''2025-01-01'' then Some 1 else if s = ''2025-01-02'' then Some 2 else None) a)
      (sortCalculations (\<lambda>s. if s = ''2025-01-01'' then Some 1 else if s = ''2025-01-02'' then Some 2 else None) length
      [\<lparr>calc_id = ''1'', calc_title = None, operation_type = ''solve'', latex_input = ''x=1'',
         calc_solution = ''1'', ai_explanation = None, created_at = ''2025-01-01''\<rparr>,
       \<lparr>calc_id = ''2'', calc_title = None, operation_type = ''fourier'', latex_input = ''x'',
         calc_solution = ''0'', ai_explanation = None, created_at = ''2025-01-02''\<rparr>] ''date-desc'')
   \<and> sortCalculations (\<lambda>s. if s = ''2025-01-01'' then Some 1 else if s = ''2025-01-02'' then Some 2 else None) length
      [\<lparr>calc_id = ''1'', calc_title = None, operation_type = ''solve'', latex_input = ''x=1'',
         calc_solution = ''1'', ai_explanation = None, created_at = ''2025-01-01''\<rparr>,
       \<lparr>calc_id = ''2'', calc_title = None, operation_type = ''fourier'', latex_input = ''x'',
         calc_solution = ''0'', ai_explanation = None, created_at = ''2025-01-02''\<rparr>] ''name''
    = [\<lparr>calc_id = ''1'', calc_title = None, operation_type = ''solve'', latex_input = ''x=1'',
         calc_solution = ''1'', ai_explanation = None, created_at = ''2025-01-01''\<rparr>,
       \<lparr>calc_id = ''2'', calc_title = None, operation_type = ''fourier'', latex_input = ''x'',
         calc_solution = ''0'', ai_explanation = None, created_at = ''2025-01-02''\<rparr>]"
  using sortCalculations_sorted_permutation
    [of "\<lambda>s. if s = ''2025-01-01'' then Some 1 else if s = ''2025-01-02'' then Some 2 else None"
       length
       "[\<lparr>calc_id = ''1'', calc_title = None, operation_type = ''solve'', latex_input = ''x=1'',
         calc_solution = ''1'', ai_explanation = None, created_at = ''2025-01-01''\<rparr>,
       \<lparr>calc_id = ''2'', calc_title = None, operation_type = ''fourier'', latex_input = ''x'',
         calc_solution = ''0'', ai_explanation = None, created_at = ''2025-01-02''\<rparr>]"
       "''name''"]
  by simp

text \<open>
  The claim as stated fails for a list with a \<open>created_at\<close> that does not parse: every
  comparison with it is \<open>NaN\<close>, which the sort takes for "equal". Of three calculations
  with the unparsable one in the middle none moves, and under \<open>date-desc\<close> the older
  one stays in front of the newer.
\<close>

theorem unparsable_date_leaves_dates_unsorted:
  "sortCalculations (\<lambda>s. if s = ''2025-01-01'' then Some 1 else if s = ''2025-01-02'' then Some 2 else None) length
      [\<lparr>calc_id = ''1'', calc_title = None, operation_type = ''solve'', latex_input = ''x=1'',
         calc_solution = ''1'', ai_explanation = None, created_at = ''2025-01-01''\<rparr>,
       \<lparr>calc_id = ''3'', calc_title = None, operation_type = ''solve'', latex_input = ''x=3'',
         calc_solution = ''3'', ai_explanation = None, created_at = ''soon''\<rparr>,
       \<lparr>calc_id = ''2'', calc_title = None, operation_type = ''fourier'', latex_input = ''x'',
         calc_solution = ''0'', ai_explanation = None, created_at = ''2025-01-02''\<rparr>] ''date-desc''
    = [\<lparr>calc_id = ''1'', calc_title = None, operation_type = ''solve'', latex_input = ''x=1'',
         calc_solution = ''1'', ai_explanation = None, created_at = ''2025-01-01''\<rparr>,
       \<lparr>calc_id = ''3'', calc_title = None, operation_type = ''solve'', latex_input = ''x=3'',
         calc_solution = ''3'', ai_explanation = None, created_at = ''soon''\<rparr>,
       \<lparr>calc_id = ''2'', calc_title = None, operation_type = ''fourier'', latex_input = ''x'',
         calc_solution = ''0'', ai_explanation = None, created_at = ''2025-01-02''\<rparr>]
   \<and> \<not> sorted_wrt (\<lambda>a b. created_time (\<lambda>s. if s = ''2025-01-01'' then Some 1 else if s = ''2025-01-02'' then Some 2 else None) b
                     \<le> created_time (\<lambda>s. if s = ''2025-01-01'' then Some 1 else if s = ''2025-01-02'' then Some 2 else None) a)
       [\<lparr>calc_id = ''1'', calc_title = None, operation_type = ''solve'', latex_input = ''x=1'',
         calc_solution = ''1'', ai_explanation = None, created_at = ''2025-01-01''\<rparr>,
        \<lparr>calc_id = ''2'', calc_title = None, operation_type = ''fourier'', latex_input = ''x'',
         calc_solution = ''0'', ai_explanation = None, created_at = ''2025-01-02''\<rparr>]"
  by (simp add: sortCalculations_def js_sort_def date_diff_def nan_to_zero_def created_time_def)

section \<open>Reading cookies\<close>

lemma split_on_no_sep: "sep \<notin> set s \<Longrightarrow> split_on sep s = [s]"
  by (induction s) auto

lemma split_on_append: "sep \<notin> set a \<Longrightarrow> split_on sep (a @ sep # b) = a # split_on sep b"
  by (induction a) auto

lemma split_join:
  assumes "\<forall>p\<in>set ps. CHR '';'' \<notin> set p" and "CHR '';'' \<notin> set q"
  shows "split_on CHR '';'' (join ''; '' (q # ps)) = q # map (\<lambda>p. CHR '' '' # p) ps"
  using assms
proof (induction ps arbitrary: q)
  case Nil
  then show ?case by (simp add: split_on_no_sep)
next
  case (Cons p ps)
  have "join ''; '' (q # p # ps) = q @ CHR '';'' # (CHR '' '' # join ''; '' (p # ps))" by simp
  then have "split_on CHR '';'' (join ''; '' (q # p # ps))
      = q # split_on CHR '';'' (CHR '' '' # join ''; '' (p # ps))"
    using split_on_append [OF Cons.prems(2), of "CHR '' '' # join ''; '' (p # ps)"] by simp
  also have "split_on CHR '';'' (CHR '' '' # join ''; '' (p # ps))
      = (CHR '' '' # hd (split_on CHR '';'' (join ''; '' (p # ps)))) # tl (split_on CHR '';'' (join ''; '' (p # ps)))"
    by simp
  also have "split_on CHR '';'' (join ''; '' (p # ps)) = p # map (\<lambda>p. CHR '' '' # p) ps"
    using Cons by simp
  finally show ?case by simp
qed

lemma prefix_name_eq:
  assumes "e \<notin> set n" and "e \<notin> set m"
  shows "(take (length (n @ [e])) (m @ e # v) = n @ [e]) = (m = n)"
  using assms
proof (induction n arbitrary: m)
  case Nil
  then show ?case by (cases m) auto
next
  case (Cons a n)
  then show ?case by (cases m) auto
qed

lemma getCookie_loop_pieces:
  assumes "list_all cookie_ok cs" and "CHR ''='' \<notin> set name"
    and "\<forall>c\<in>set cs. dropWhile (\<lambda>x. x = CHR '' '') (f c) = cookie_pair c"
  shows "getCookie_loop (name @ ''='') (map f cs)
           = map_option cookie_value (find (\<lambda>c. cookie_name c = name) cs)"
  using assms
proof (induction cs)
  case Nil
  then show ?case by simp
next
  case (Cons c cs)
  have eq: "(take (length (name @ ''='')) (cookie_name c @ CHR ''='' # cookie_value c) = name @ ''='')
         = (cookie_name c = name)"
    using Cons.prems by (intro prefix_name_eq) (auto simp: cookie_ok_def)
  show ?case
  proof (cases "cookie_name c = name")
    case True
    then show ?thesis using Cons.prems eq by (simp add: cookie_pair_def)
  next
    case False
    then show ?thesis using Cons eq by (simp add: cookie_pair_def)
  qed
qed

lemma dropWhile_pair:
  assumes "cookie_ok c"
  shows "dropWhile (\<lambda>x. x = CHR '' '') (cookie_pair c) = cookie_pair c"
    and "dropWhile (\<lambda>x. x = CHR '' '') (CHR '' '' # cookie_pair c) = cookie_pair c"
  using assms by (cases "cookie_name c"; simp add: cookie_ok_def cookie_pair_def)+

lemma getCookie_find:
  assumes "store_ok jar" and "CHR ''='' \<notin> set name"
  shows "getCookie name jar = map_option cookie_value (find (\<lambda>c. cookie_name c = name) jar)"
proof (cases jar)
  case Nil
  then show ?thesis by (simp add: getCookie_def document_cookie_def)
next
  case (Cons c cs)
  have ok: "cookie_ok c" "list_all cookie_ok cs"
    using assms Cons by (simp_all add: store_ok_def)
  have "document_cookie jar = join ''; '' (cookie_pair c # map cookie_pair cs)"
    by (simp add: document_cookie_def Cons)
  moreover have "split_on CHR '';'' (join ''; '' (cookie_pair c # map cookie_pair cs))
      = cookie_pair c # map (\<lambda>p. CHR '' '' # p) (map cookie_pair cs)"
    by (rule split_join) (use ok in \<open>auto simp: cookie_ok_def cookie_pair_def list_all_iff\<close>)
  ultimately have pieces: "split_on CHR '';'' (document_cookie jar)
      = cookie_pair c # map (\<lambda>d. CHR '' '' # cookie_pair d) cs"
    by (simp add: comp_def)
  have rest: "getCookie_loop (name @ ''='') (map (\<lambda>d. CHR '' '' # cookie_pair d) cs)
      = map_option cookie_value (find (\<lambda>c. cookie_name c = name) cs)"
    by (rule getCookie_loop_pieces) (use ok assms(2) in \<open>auto simp: dropWhile_pair list_all_iff\<close>)
  have eq: "(take (length (name @ ''='')) (cookie_name c @ CHR ''='' # cookie_value c) = name @ ''='')
         = (cookie_name c = name)"
    using ok(1) assms(2) by (intro prefix_name_eq) (auto simp: cookie_ok_def)
  have "getCookie name jar
      = getCookie_loop (name @ ''='') (cookie_pair c # map (\<lambda>d. CHR '' '' # cookie_pair d) cs)"
    by (simp only: getCookie_def pieces)
  also have "\<dots> = map_option cookie_value (find (\<lambda>c. cookie_name c = name) (c # cs))"
    using rest eq dropWhile_pair(1) [OF ok(1)]
    by (cases "cookie_name c = name") (simp_all add: cookie_pair_def)
  finally show ?thesis by (simp only: Cons)
qed

lemma trim_wsp_id:
  assumes "s = [] \<or> (\<not> is_wsp (hd s) \<and> \<not> is_wsp (last s))"
  shows "trim_wsp s = s"
proof (cases s)
  case Nil
  then show ?thesis by (simp add: trim_wsp_def)
next
  case (Cons a t)
  with assms have "\<not> is_wsp a" "\<not> is_wsp (last (a # t))" by auto
  then have "dropWhile is_wsp (a # t) = a # t"
    and "dropWhile is_wsp (rev (a # t)) = rev (a # t)"
    by (simp_all add: dropWhile_eq_self_iff hd_rev del: rev.simps last.simps)
  then show ?thesis by (simp add: trim_wsp_def Cons del: rev.simps)
qed

lemma set_trim_wsp: "set (trim_wsp s) \<subseteq> set s"
proof -
  have "set (dropWhile is_wsp (rev (dropWhile is_wsp s))) \<subseteq> set (rev (dropWhile is_wsp s))"
    by (rule set_dropWhileD [THEN subsetI]) 
  also have "\<dots> \<subseteq> set s" by (auto dest: set_dropWhileD)
  finally show ?thesis by (simp add: trim_wsp_def)
qed

lemma hd_trim_wsp:
  assumes "trim_wsp s \<noteq> []"
  shows "\<not> is_wsp (hd (trim_wsp s))"
proof -
  define t where "t = dropWhile is_wsp s"
  have t: "t = [] \<or> \<not> is_wsp (hd t)"
    unfolding t_def by (metis hd_dropWhile)
  have "rev t = takeWhile is_wsp (rev t) @ dropWhile is_wsp (rev t)" by simp
  then have "t = rev (dropWhile is_wsp (rev t)) @ rev (takeWhile is_wsp (rev t))"
    by (metis rev_append rev_rev_ident)
  then have "t = trim_wsp s @ rev (takeWhile is_wsp (rev t))"
    by (simp add: trim_wsp_def t_def)
  with assms have "hd t = hd (trim_wsp s)" "t \<noteq> []"
    by (metis hd_append2, metis append_is_Nil_conv)
  with t show ?thesis by simp
qed

lemma find_store_put:
  "find (\<lambda>d. cookie_name d = cookie_name c) (store_put c jar) = Some c"
  by (induction jar) auto

lemma find_store_put_other:
  "n \<noteq> cookie_name c \<Longrightarrow>
   find (\<lambda>d. cookie_name d = n) (store_put c jar) = find (\<lambda>d. cookie_name d = n) jar"
  by (induction jar) auto

lemma names_store_put:
  "set (map cookie_name (store_put c jar)) = insert (cookie_name c) (set (map cookie_name jar))"
  by (induction jar) auto

lemma distinct_store_put:
  "distinct (map cookie_name jar) \<Longrightarrow> distinct (map cookie_name (store_put c jar))"
proof (induction jar)
  case Nil
  then show ?case by simp
next
  case (Cons d ds)
  then show ?case using names_store_put [of c ds] by auto
qed

lemma set_store_put: "set (store_put c jar) \<subseteq> insert c (set jar)"
  by (induction jar) auto

lemma store_ok_put:
  assumes "store_ok jar" and "cookie_ok c"
  shows "store_ok (store_put c jar)"
  using assms set_store_put [of c jar]
  by (auto simp: store_ok_def list_all_iff distinct_store_put)

lemma store_ok_remove: "store_ok jar \<Longrightarrow> store_ok (store_remove n jar)"
  by (auto simp: store_ok_def store_remove_def list_all_iff distinct_map_filter)

lemma store_ok_assign:
  assumes "store_ok jar"
  shows "store_ok (document_cookie_assign now cs jar)"
proof -
  define pair where "pair = takeWhile (\<lambda>x. x \<noteq> CHR '';'') (cs_pair cs)"
  define n where "n = trim_wsp (takeWhile (\<lambda>x. x \<noteq> CHR ''='') pair)"
  define v where "v = trim_wsp (drop (Suc 0) (dropWhile (\<lambda>x. x \<noteq> CHR ''='') pair))"
  have semi: "CHR '';'' \<notin> set pair"
    unfolding pair_def by (auto dest: set_takeWhileD)
  have "set n \<subseteq> set (takeWhile (\<lambda>x. x \<noteq> CHR ''='') pair)"
    unfolding n_def by (rule set_trim_wsp)
  then have n1: "CHR ''='' \<notin> set n" "CHR '';'' \<notin> set n"
    using semi by (auto dest: set_takeWhileD)
  have "set v \<subseteq> set (drop (Suc 0) (dropWhile (\<lambda>x. x \<noteq> CHR ''='') pair))"
    unfolding v_def by (rule set_trim_wsp)
  then have v1: "CHR '';'' \<notin> set v"
    using semi by (auto dest!: in_set_dropD set_dropWhileD)
  have n2: "n \<noteq> [] \<Longrightarrow> hd n \<noteq> CHR '' ''"
    using hd_trim_wsp [of "takeWhile (\<lambda>x. x \<noteq> CHR ''='') pair"]
    by (auto simp: n_def is_wsp_def)
  have ok: "n \<noteq> [] \<Longrightarrow> cookie_ok \<lparr>cookie_name = n, cookie_value = v, cookie_expires = e, cookie_path = q\<rparr>" for e q
    using n1 n2 v1 by (simp add: cookie_ok_def)
  show ?thesis
    using assms ok
    by (auto simp: document_cookie_assign_def Let_def pair_def [symmetric] n_def [symmetric]
          v_def [symmetric] store_ok_put store_ok_remove split: option.splits)
qed

section \<open>Writing cookies, logout\<close>

lemma takeWhile_append_sep:
  "e \<notin> set a \<Longrightarrow> takeWhile (\<lambda>x. x \<noteq> e) (a @ e # b) = a"
  by (induction a) auto

lemma dropWhile_append_sep:
  "e \<notin> set a \<Longrightarrow> dropWhile (\<lambda>x. x \<noteq> e) (a @ e # b) = e # b"
  by (induction a) auto

lemma takeWhile_no_sep:
  "e \<notin> set a \<Longrightarrow> takeWhile (\<lambda>x. x \<noteq> e) a = a"
  by (induction a) auto

lemma assign_stores:
  assumes "name \<noteq> []" and "\<not> is_wsp (hd name)" and "\<not> is_wsp (last name)"
    and "CHR '';'' \<notin> set name" and "CHR ''='' \<notin> set name"
    and "CHR '';'' \<notin> set v"
    and "v = [] \<or> (\<not> is_wsp (hd v) \<and> \<not> is_wsp (last v))"
    and "case e of None \<Rightarrow> True | Some t \<Rightarrow> now < t"
  shows "document_cookie_assign now \<lparr>cs_pair = name @ ''='' @ v, cs_expires = e, cs_path = q\<rparr> jar
           = store_put \<lparr>cookie_name = name, cookie_value = v, cookie_expires = e, cookie_path = q\<rparr> jar"
proof -
  have pair: "takeWhile (\<lambda>x. x \<noteq> CHR '';'') (name @ CHR ''='' # v) = name @ CHR ''='' # v"
    using assms(4,6) by (simp add: takeWhile_no_sep)
  have n: "trim_wsp (takeWhile (\<lambda>x. x \<noteq> CHR ''='') (name @ CHR ''='' # v)) = name"
    using assms(1-3,5) by (simp add: takeWhile_append_sep trim_wsp_id)
  have v: "trim_wsp (drop 1 (dropWhile (\<lambda>x. x \<noteq> CHR ''='') (name @ CHR ''='' # v))) = v"
    using assms(5,7) by (simp add: dropWhile_append_sep trim_wsp_id)
  show ?thesis
    using assms(1,8) n v
    by (simp add: document_cookie_assign_def pair Let_def split: option.splits)
qed

lemma assign_removes:
  assumes "name \<noteq> []" and "\<not> is_wsp (hd name)" and "\<not> is_wsp (last name)"
    and "CHR '';'' \<notin> set name" and "CHR ''='' \<notin> set name"
    and "t \<le> now"
  shows "document_cookie_assign now \<lparr>cs_pair = name @ ''='', cs_expires = Some t, cs_path = q\<rparr> jar
           = store_remove name jar"
proof -
  have pair: "takeWhile (\<lambda>x. x \<noteq> CHR '';'') (name @ [CHR ''='']) = name @ [CHR ''=''] "
    using assms(4) by (simp add: takeWhile_no_sep)
  have n: "trim_wsp (takeWhile (\<lambda>x. x \<noteq> CHR ''='') (name @ ''='')) = name"
    using assms(1-3,5) takeWhile_append_sep [of "CHR ''=''" name "[]"] by (simp add: trim_wsp_id)
  show ?thesis
    using assms(1,6) n
    by (simp add: document_cookie_assign_def pair Let_def)
qed

lemma authToken_name:
  "''authToken'' \<noteq> []" "\<not> is_wsp (hd ''authToken'')" "\<not> is_wsp (last ''authToken'')"
  "CHR '';'' \<notin> set ''authToken''" "CHR ''='' \<notin> set ''authToken''"
  by (simp_all add: is_wsp_def)

lemma clear_cookie_removes:
  "0 \<le> now \<Longrightarrow>
   document_cookie_assign now clear_authToken_cookie jar = store_remove ''authToken'' jar"
  unfolding clear_authToken_cookie_def
  using assign_removes [OF authToken_name, of 0 now "''/''" jar] by simp

lemma find_store_remove:
  "find (\<lambda>d. cookie_name d = n) (store_remove n jar) = None"
  by (auto simp: store_remove_def find_None_iff)

lemma getCookie_after_remove:
  assumes "store_ok jar" and "CHR ''='' \<notin> set n"
  shows "getCookie n (store_remove n jar) = None"
  using getCookie_find [OF store_ok_remove [OF assms(1)] assms(2), of n]
  by (simp add: find_store_remove)

lemma logout_user_auth_clears:
  assumes "store_ok (cookies b)" and "0 \<le> now"
  shows "localStorage (logout_user_auth now b) ''authToken'' = None
       \<and> localStorage (logout_user_auth now b) ''currentUser'' = None
       \<and> getCookie ''authToken'' (cookies (logout_user_auth now b)) = None
       \<and> location (logout_user_auth now b) = ''/auth''"
  using assms getCookie_after_remove [of "cookies b" "''authToken''"]
  by (simp add: logout_user_auth_def clear_cookie_removes)

lemma logout_dashboard_pdf_clears:
  assumes "store_ok (cookies b)" and "0 \<le> now"
  shows "localStorage (logout_dashboard_pdf now b) ''authToken'' = None
       \<and> localStorage (logout_dashboard_pdf now b) ''currentUser'' = None
       \<and> getCookie ''authToken'' (cookies (logout_dashboard_pdf now b)) = None
       \<and> location (logout_dashboard_pdf now b) = ''/login''"
  using assms getCookie_after_remove [of "cookies b" "''authToken''"]
  by (simp add: logout_dashboard_pdf_def clear_cookie_removes)

text \<open>
  C7. \<open>logout\<close> of user-auth.js and of the later dashboard script remove both storage
  keys, remove the \<open>authToken\<close> cookie and redirect (the two lemmas above). \<open>logout\<close>
  of src/frontend/scripts/dashboard.js removes the storage keys and never assigns
  \<open>document.cookie\<close>: from a signed-in state the \<open>authToken\<close> cookie is still readable
  after it.
\<close>

theorem dashboard_logout_keeps_cookie:
  "localStorage (logout_dashboard
      \<lparr>localStorage = [''authToken'' \<mapsto> ''tok'', ''currentUser'' \<mapsto> ''{}''],
       cookies = [\<lparr>cookie_name = ''authToken'', cookie_value = ''tok'',
                   cookie_expires = Some 604800000, cookie_path = ''/''\<rparr>],
       location = ''/dashboard''\<rparr>) ''authToken'' = None
   \<and> getCookie ''authToken'' (cookies (logout_dashboard
      \<lparr>localStorage = [''authToken'' \<mapsto> ''tok'', ''currentUser'' \<mapsto> ''{}''],
       cookies = [\<lparr>cookie_name = ''authToken'', cookie_value = ''tok'',
                   cookie_expires = Some 604800000, cookie_path = ''/''\<rparr>],
       location = ''/dashboard''\<rparr>)) = Some ''tok''"
  by (simp add: logout_dashboard_def getCookie_def document_cookie_def cookie_pair_def)




section \<open>The sign-in response\<close>

lemma login_cookie_stored:
  assumes "t \<noteq> []" and "CHR '';'' \<notin> set t" and "\<not> is_wsp (hd t)" and "\<not> is_wsp (last t)"
  shows "find (\<lambda>c. cookie_name c = ''authToken'') (setCookie now ''authToken'' (Some t) 7 jar)
           = Some \<lparr>cookie_name = ''authToken'', cookie_value = t,
                   cookie_expires = Some (now + 604800000), cookie_path = ''/''\<rparr>"
proof -
  have "setCookie now ''authToken'' (Some t) 7 jar
      = document_cookie_assign now
          \<lparr>cs_pair = ''authToken'' @ ''='' @ t, cs_expires = Some (now + 604800000), cs_path = ''/''\<rparr> jar"
    using assms(1) by (simp add: setCookie_def setCookie_string_def js_or_def)
  also have "\<dots> = store_put \<lparr>cookie_name = ''authToken'', cookie_value = t,
                   cookie_expires = Some (now + 604800000), cookie_path = ''/''\<rparr> jar"
    by (rule assign_stores [OF authToken_name]) (use assms in simp_all)
  finally show ?thesis
    using find_store_put [of "\<lparr>cookie_name = ''authToken'', cookie_value = t,
                   cookie_expires = Some (now + 604800000), cookie_path = ''/''\<rparr>" jar]
    by simp
qed

text \<open>
  C6 (amended). On a successful response to a login the token is stored under
  \<open>authToken\<close> and the user under \<open>currentUser\<close>, the \<open>authToken\<close> cookie is assigned
  with an expiry seven days ahead and path \<open>/\<close> (and is then in the store with that
  expiry and path, for a token the cookie syntax can carry), and the page goes to
  \<open>/\<close>. On a successful response to a registration no session is stored: the form
  switches to login and shows a notice. On a failed response, and when the request
  throws, storage and cookies are unchanged; the failed response's \<open>error\<close>, or a fixed
  fallback when it has none, is shown at the form.
\<close>

theorem auth_response_session:
  "(isLogin s \<and> ok r \<longrightarrow>
       localStorage (page_browser (on_auth_response now (Inr r) s))
         = (localStorage (page_browser s))
             (''authToken'' \<mapsto> js_String (data_token r), ''currentUser'' \<mapsto> user_json r)
     \<and> cookies (page_browser (on_auth_response now (Inr r) s))
         = document_cookie_assign now
             \<lparr>cs_pair = ''authToken='' @ js_or (data_token r) [],
              cs_expires = Some (now + 7 * 24 * 60 * 60 * 1000), cs_path = ''/''\<rparr>
             (cookies (page_browser s))
     \<and> (\<forall>t. data_token r = Some t \<and> t \<noteq> [] \<and> CHR '';'' \<notin> set t
              \<and> \<not> is_wsp (hd t) \<and> \<not> is_wsp (last t) \<longrightarrow>
            find (\<lambda>c. cookie_name c = ''authToken'')
                (cookies (page_browser (on_auth_response now (Inr r) s)))
              = Some \<lparr>cookie_name = ''authToken'', cookie_value = t,
                      cookie_expires = Some (now + 604800000), cookie_path = ''/''\<rparr>)
     \<and> location (page_browser (on_auth_response now (Inr r) s)) = ''/'')
 \<and> (\<not> isLogin s \<and> ok r \<longrightarrow>
       page_browser (on_auth_response now (Inr r) s) = page_browser s
     \<and> isLogin (on_auth_response now (Inr r) s)
     \<and> error_messages (on_auth_response now (Inr r) s) ''username''
         = Some ''Registration successful! Please login with your username.'')
 \<and> (\<not> ok r \<longrightarrow>
       page_browser (on_auth_response now (Inr r) s) = page_browser s
     \<and> error_messages (on_auth_response now (Inr r) s) (if isLogin s then ''username'' else ''email'')
         = Some (js_or (data_error r) (if isLogin s then ''Login failed'' else ''Registration failed'')))
 \<and> page_browser (on_auth_response now (Inl e) s) = page_browser s"
proof -
  have "find (\<lambda>c. cookie_name c = ''authToken'')
            (cookies (page_browser (on_auth_response now (Inr r) s)))
          = Some \<lparr>cookie_name = ''authToken'', cookie_value = t,
                  cookie_expires = Some (now + 604800000), cookie_path = ''/''\<rparr>"
    if "isLogin s" "ok r" "data_token r = Some t" "t \<noteq> []" "CHR '';'' \<notin> set t"
       "\<not> is_wsp (hd t)" "\<not> is_wsp (last t)" for t
    using that login_cookie_stored [of t now "cookies (page_browser s)"]
    by (simp add: on_auth_response_def)
  then show ?thesis
    by (simp add: on_auth_response_def showError_def click_login_toggle_def setCookie_def
          setCookie_string_def)
qed

theorem auth_response_session_witness:
  "localStorage (page_browser (on_auth_response 1000
       (Inr \<lparr>ok = True, data_token = Some ''tok'', user_json = ''{}'', data_error = None\<rparr>)
       \<lparr>isLogin = True, error_messages = Map.empty,
        page_browser = \<lparr>localStorage = Map.empty, cookies = [], location = ''/auth''\<rparr>\<rparr>))
     = [''authToken'' \<mapsto> ''tok'', ''currentUser'' \<mapsto> ''{}'']
   \<and> cookies (page_browser (on_auth_response 1000
       (Inr \<lparr>ok = True, data_token = Some ''tok'', user_json = ''{}'', data_error = None\<rparr>)
       \<lparr>isLogin = True, error_messages = Map.empty,
        page_browser = \<lparr>localStorage = Map.empty, cookies = [], location = ''/auth''\<rparr>\<rparr>))
     = [\<lparr>cookie_name = ''authToken'', cookie_value = ''tok'',
         cookie_expires = Some 604801000, cookie_path = ''/''\<rparr>]
   \<and> page_browser (on_auth_response 1000
       (Inr \<lparr>ok = True, data_token = None, user_json = ''undefined'', data_error = None\<rparr>)
       \<lparr>isLogin = False, error_messages = Map.empty,
        page_browser = \<lparr>localStorage = Map.empty, cookies = [], location = ''/auth''\<rparr>\<rparr>)
     = \<lparr>localStorage = Map.empty, cookies = [], location = ''/auth''\<rparr>
   \<and> error_messages (on_auth_response 1000
       (Inr \<lparr>ok = False, data_token = None, user_json = ''undefined'', data_error = Some ''Invalid credentials''\<rparr>)
       \<lparr>isLogin = True, error_messages = Map.empty,
        page_browser = \<lparr>localStorage = Map.empty, cookies = [], location = ''/auth''\<rparr>\<rparr>) ''username''
     = Some ''Invalid credentials''"
  using auth_response_session
      [of "\<lparr>isLogin = True, error_messages = Map.empty,
            page_browser = \<lparr>localStorage = Map.empty, cookies = [], location = ''/auth''\<rparr>\<rparr>"
          "\<lparr>ok = True, data_token = Some ''tok'', user_json = ''{}'', data_error = None\<rparr>" 1000]
    auth_response_session
      [of "\<lparr>isLogin = False, error_messages = Map.empty,
            page_browser = \<lparr>localStorage = Map.empty, cookies = [], location = ''/auth''\<rparr>\<rparr>"
          "\<lparr>ok = True, data_token = None, user_json = ''undefined'', data_error = None\<rparr>" 1000]
    auth_response_session
      [of "\<lparr>isLogin = True, error_messages = Map.empty,
            page_browser = \<lparr>localStorage = Map.empty, cookies = [], location = ''/auth''\<rparr>\<rparr>"
          "\<lparr>ok = False, data_token = None, user_json = ''undefined'', data_error = Some ''Invalid credentials''\<rparr>" 1000]
  by (simp add: js_String_def js_or_def document_cookie_assign_def trim_wsp_def is_wsp_def)

text \<open>
  The claim as stated fails for registration: after a successful response nothing is in
  storage and no cookie is set.
\<close>

theorem register_success_stores_no_session:
  "localStorage (page_browser (on_auth_response 1000
       (Inr \<lparr>ok = True, data_token = Some ''tok'', user_json = ''{}'', data_error = None\<rparr>)
       \<lparr>isLogin = False, error_messages = Map.empty,
        page_browser = \<lparr>localStorage = Map.empty, cookies = [], location = ''/auth''\<rparr>\<rparr>))
     ''authToken'' = None
   \<and> cookies (page_browser (on_auth_response 1000
       (Inr \<lparr>ok = True, data_token = Some ''tok'', user_json = ''{}'', data_error = None\<rparr>)
       \<lparr>isLogin = False, error_messages = Map.empty,
        page_browser = \<lparr>localStorage = Map.empty, cookies = [], location = ''/auth''\<rparr>\<rparr>)) = []"
  by (simp add: on_auth_response_def showError_def click_login_toggle_def)

section \<open>Saving after a solve\<close>

lemma Post_in_after_save: "Post req \<notin> set (after_save auto server)"
  by (auto simp: after_save_def split: sum.splits)

lemma Prompt_in_after_save: "Prompt q \<notin> set (after_save auto server)"
  by (auto simp: after_save_def split: sum.splits)

lemma js_or_truthy: "truthy v \<Longrightarrow> js_or v d = the v"
  by (auto simp: truthy_def js_or_def split: option.splits)

lemma js_or_nonempty: "d \<noteq> [] \<Longrightarrow> js_or v d \<noteq> []"
  by (auto simp: js_or_def split: option.splits)

text \<open>
  What the guards of the save path give: a request is posted only with an input and a
  solution text that are not empty, and the timer is set only for a response whose
  \<open>error\<close> is absent or empty. They do not make the solution text a solution.
\<close>

lemma saveCurrentCalculation_Post:
  assumes "saveCurrentCalculation a doc answer server args = Inr effects"
    and "Post req \<in> set effects"
  shows "req_latex_input req \<noteq> [] \<and> req_solution req \<noteq> []
       \<and> isAuthenticated a \<and> truthy (authToken a)"
proof -
  from assms have auth: "isAuthenticated a" "truthy (authToken a)"
    by (auto simp: saveCurrentCalculation_def split: if_splits)
  define latex where "latex = (if truthy (manualLatexInput args) then Inr (the (manualLatexInput args))
               else dom_latexInput doc)"
  define solution where "solution = js_or (manualSolution args)
                   (case dom_solution_container doc of Some t \<Rightarrow> js_trim t | None \<Rightarrow> [])"
  from assms auth obtain l where l: "latex = Inr l"
    by (cases latex) (auto simp: saveCurrentCalculation_def latex_def)
  have "l \<noteq> [] \<and> solution \<noteq> []"
  proof (rule ccontr)
    assume "\<not> (l \<noteq> [] \<and> solution \<noteq> [])"
    then have "effects = [Alert ''No calculation to save''] \<or> effects = []"
      using assms(1) auth l
      by (auto simp: saveCurrentCalculation_def latex_def [symmetric] solution_def [symmetric]
               split: if_splits)
    with assms(2) show False by auto
  qed
  moreover from this have "req_latex_input req = l \<and> req_solution req = solution"
    using assms auth l
    by (auto simp: saveCurrentCalculation_def latex_def [symmetric] solution_def [symmetric]
          Let_def Post_in_after_save split: if_splits)
  ultimately show ?thesis using auth by simp
qed

lemma saveCurrentCalculation_Prompt:
  assumes "saveCurrentCalculation a doc answer server args = Inr effects"
    and "Prompt q \<in> set effects"
  shows "\<not> truthy (manualLatexInput args) \<and> \<not> truthy (manualTitle args)"
proof (rule ccontr)
  assume neg: "\<not> (\<not> truthy (manualLatexInput args) \<and> \<not> truthy (manualTitle args))"
  have "Prompt q \<notin> set effects"
    using assms(1) neg
    by (auto simp: saveCurrentCalculation_def Let_def Prompt_in_after_save
             split: if_splits sum.splits)
  with assms(2) show False by simp
qed

lemma autoSaveCalculation_Post:
  assumes "autoSaveCalculation a doc answer server avail now currentLatex solution = Inr effects"
    and "Post req \<in> set effects"
  shows "req_latex_input req \<noteq> [] \<and> req_solution req \<noteq> []"
proof -
  from assms have "\<exists>args. saveCurrentCalculation a doc answer server args = Inr effects"
    by (auto simp: autoSaveCalculation_def Let_def split: if_splits)
  then show ?thesis
    using assms(2) saveCurrentCalculation_Post by blast
qed

lemma autoSave_gate_error:
  "autoSave_gate w solution \<Longrightarrow> resp_error solution = None \<or> resp_error solution = Some []"
  by (auto simp: autoSave_gate_def truthy_def split: option.splits)

lemma TextMode_timer:
  "TextMode_displaySolution k w solution p = Inr (p', timer) \<Longrightarrow> timer = autoSave_gate w solution"
  by (auto simp: TextMode_displaySolution_def split: sum.splits)

lemma autoSave_posts:
  assumes "isAuthenticated a" and "truthy (authToken a)"
    and "currentLatex \<noteq> []"
    and "resp_solution solution = Some sol" and "solutionText_of sol \<noteq> []"
  shows "autoSaveCalculation a doc answer server True now currentLatex solution
       = Inr (Post \<lparr>req_latex_input = currentLatex,
                    req_operation_type = (case dom_operation_type doc of Some v \<Rightarrow> v | None \<Rightarrow> ''solve''),
                    req_solution = solutionText_of sol,
                    req_ai_explanation =
                      js_or (Some (case resp_ai_steps solution of
                                     Some steps \<Rightarrow> join [CHR 0x0A] steps | None \<Rightarrow> []))
                        (case dom_explanation_container doc of Some t \<Rightarrow> js_trim t | None \<Rightarrow> []),
                    req_title = Some (autoSave_title
                      (case dom_operation_type doc of Some v \<Rightarrow> v | None \<Rightarrow> ''solve'') now)\<rparr>
              # after_save True server)"
proof -
  have st: "solution_truthy (resp_solution solution)"
    using assms(4,5) by (cases sol) (auto simp: solution_truthy_def solutionText_of_def)
  have title: "autoSave_title op now \<noteq> []" for op
    by (simp add: autoSave_title_def)
  have op: "js_or (Some op) op = op" for op
    by (simp add: js_or_def)
  show ?thesis
    using assms st
    by (simp add: autoSaveCalculation_def saveCurrentCalculation_def Let_def truthy_def title
          js_or_def [of "Some (solutionText_of sol)"] js_or_def [of "Some currentLatex"] op)
qed

text \<open>
  C1. A calculation is to be created only after a successful solve, with an input and a
  solution. For the response \<open>{solution: []}\<close> (no error, no solution) of a signed-in
  user in text mode the code creates one all the same: the timer is set, the guard of
  \<open>autoSaveCalculation\<close> lets the empty list through (a list is never falsy), the joined
  text is empty, and \<open>saveCurrentCalculation\<close> falls back to the text of
  \<open>.solution-container\<close>, which by then is the header \<open>Solution\<close> followed by an empty
  result. The calculation posted has the word \<open>Solution\<close> for its solution.
\<close>

theorem empty_solution_list_saves_header:
  "TextMode_solved_on_page html_text steps_text k
        \<lparr>window_isAuthenticated = True, window_saveCurrentCalculation = True\<rparr>
        \<lparr>isAuthenticated = True, authToken = Some ''tok''\<rparr>
        \<lparr>window_currentMode = Some ''text'', dom_latex_input = None, dom_drawing_latex_result = None,
         dom_result_latex = None, dom_solution_container = None,
         dom_operation_type = Some ''solve'', dom_explanation_container = None\<rparr>
        None (Inr \<lparr>save_ok = True, data_success = True, save_error = None\<rparr>)
        ''1/1/2025, 12:00:00 PM'' ''x^{2}=4''
        \<lparr>resp_error = None, resp_solution = Some (SolArr []), resp_ai_steps = None\<rparr>
        \<lparr>has_main_content = True, solution_container = None\<rparr>
      = Inr (\<lparr>has_main_content = True,
              solution_container = Some [Header ''Solution'', Result (TextContent [])]\<rparr>,
             [Post \<lparr>req_latex_input = ''x^{2}=4'', req_operation_type = ''solve'',
                    req_solution = ''Solution'', req_ai_explanation = [],
                    req_title = Some ''Solve - 1/1/2025, 12:00:00 PM''\<rparr>,
              ConsoleLog ''Calculation auto-saved successfully''])"
proof -
  have cap: "capitalize ''solve'' = ''Solve''" by code_simp
  have trim: "js_trim ''Solution'' = ''Solution''" by code_simp
  show ?thesis
    by (simp add: TextMode_solved_on_page_def TextMode_displaySolution_def
          DrawMode_displaySolution_def result_of_def steps_section_def autoSave_gate_def
          truthy_def container_textContent_def autoSaveCalculation_def solution_truthy_def
          solutionText_of_def autoSave_title_def cap trim saveCurrentCalculation_def js_or_def
          after_save_def)
qed

lemma TextMode_displaySolution_ok:
  assumes "has_main_content p \<or> solution_container p \<noteq> None"
  shows "\<exists>p'. TextMode_displaySolution k w solution p = Inr (p', autoSave_gate w solution)"
  using assms by (auto simp: TextMode_displaySolution_def DrawMode_displaySolution_def)

text \<open>
  C5 (amended). In text mode, with \<open>window.isAuthenticated\<close> set, the save function
  installed and the module signed in with a token: for every response without error
  whose solution text is not empty, while the current markup is not empty, the timer
  posts the calculation without a prompt, with the title made of the operation type,
  its first letter in upper case, then \<open> - \<close> and the time as a locale string. A
  prompt appears only in a call of \<open>saveCurrentCalculation\<close> that gives neither the
  input nor a title, as the button's call without arguments does.
\<close>

theorem autosave_persists_without_prompt:
  assumes "window_isAuthenticated w" and "window_saveCurrentCalculation w"
    and "isAuthenticated a" and "truthy (authToken a)"
    and "\<not> truthy (resp_error solution)"
    and "currentLatex \<noteq> []"
    and "resp_solution solution = Some sol" and "solutionText_of sol \<noteq> []"
    and "has_main_content p \<or> solution_container p \<noteq> None"
  shows "(\<exists>p' req. TextMode_solved k w a doc answer server now currentLatex solution p
                     = Inr (p', Post req # after_save True server)
            \<and> req_title req
                = Some (capitalize (case dom_operation_type doc of Some v \<Rightarrow> v | None \<Rightarrow> ''solve'')
                          @ '' - '' @ now)
            \<and> req_latex_input req = currentLatex
            \<and> req_solution req = solutionText_of sol
            \<and> req_operation_type req = (case dom_operation_type doc of Some v \<Rightarrow> v | None \<Rightarrow> ''solve'')
            \<and> (\<forall>q. Prompt q \<notin> set (Post req # after_save True server)))
       \<and> (\<forall>a' doc' answer' server' args effects q.
             saveCurrentCalculation a' doc' answer' server' args = Inr effects
               \<and> Prompt q \<in> set effects \<longrightarrow>
             \<not> truthy (manualLatexInput args) \<and> \<not> truthy (manualTitle args))"
proof -
  from TextMode_displaySolution_ok [OF assms(9)] obtain p' where
    p': "TextMode_displaySolution k w solution p = Inr (p', autoSave_gate w solution)"
    by blast
  have gate: "autoSave_gate w solution"
    using assms(1,2,5) by (simp add: autoSave_gate_def)
  have "TextMode_solved k w a doc answer server now currentLatex solution p
      = Inr (p', Post \<lparr>req_latex_input = currentLatex,
                    req_operation_type = (case dom_operation_type doc of Some v \<Rightarrow> v | None \<Rightarrow> ''solve''),
                    req_solution = solutionText_of sol,
                    req_ai_explanation =
                      js_or (Some (case resp_ai_steps solution of
                                     Some steps \<Rightarrow> join [CHR 0x0A] steps | None \<Rightarrow> []))
                        (case dom_explanation_container doc of Some t \<Rightarrow> js_trim t | None \<Rightarrow> []),
                    req_title = Some (autoSave_title
                      (case dom_operation_type doc of Some v \<Rightarrow> v | None \<Rightarrow> ''solve'') now)\<rparr>
              # after_save True server)"
    using p' gate assms(2) autoSave_posts [OF assms(3,4,6,7,8), of doc answer server now]
    by (simp add: TextMode_solved_def)
  then have first: "\<exists>p' req. TextMode_solved k w a doc answer server now currentLatex solution p
                     = Inr (p', Post req # after_save True server)
            \<and> req_title req
                = Some (capitalize (case dom_operation_type doc of Some v \<Rightarrow> v | None \<Rightarrow> ''solve'')
                          @ '' - '' @ now)
            \<and> req_latex_input req = currentLatex
            \<and> req_solution req = solutionText_of sol
            \<and> req_operation_type req = (case dom_operation_type doc of Some v \<Rightarrow> v | None \<Rightarrow> ''solve'')
            \<and> (\<forall>q. Prompt q \<notin> set (Post req # after_save True server))"
    by (simp add: autoSave_title_def Prompt_in_after_save)
  show ?thesis
    using first saveCurrentCalculation_Prompt by blast
qed

theorem autosave_persists_without_prompt_witness:
  "TextMode_solved (\<lambda>s. Inr s)
        \<lparr>window_isAuthenticated = True, window_saveCurrentCalculation = True\<rparr>
        \<lparr>isAuthenticated = True, authToken = Some ''tok''\<rparr>
        \<lparr>window_currentMode = None, dom_latex_input = None, dom_drawing_latex_result = None,
         dom_result_latex = None, dom_solution_container = None,
         dom_operation_type = Some ''fourier'', dom_explanation_container = None\<rparr>
        None (Inr \<lparr>save_ok = True, data_success = True, save_error = None\<rparr>)
        ''1/1/2025, 12:00:00 PM'' ''x^{2}''
        \<lparr>resp_error = None, resp_solution = Some (SolArr [''a'', ''b'']), resp_ai_steps = None\<rparr>
        \<lparr>has_main_content = True, solution_container = None\<rparr>
      = Inr (\<lparr>has_main_content = True,
              solution_container = Some [Header ''Solution'',
                Result (Rendered (''x = a, '' @ [backslash] @ ''; x = b''))]\<rparr>,
             [Post \<lparr>req_latex_input = ''x^{2}'', req_operation_type = ''fourier'',
                    req_solution = ''a, b'', req_ai_explanation = [],
                    req_title = Some ''Fourier - 1/1/2025, 12:00:00 PM''\<rparr>,
              ConsoleLog ''Calculation auto-saved successfully''])"
proof -
  have cap: "capitalize ''fourier'' = ''Fourier''" by code_simp
  show ?thesis
    using autosave_persists_without_prompt
      [of "\<lparr>window_isAuthenticated = True, window_saveCurrentCalculation = True\<rparr>"
          "\<lparr>isAuthenticated = True, authToken = Some ''tok''\<rparr>"
          "\<lparr>resp_error = None, resp_solution = Some (SolArr [''a'', ''b'']), resp_ai_steps = None\<rparr>"
          "''x^{2}''" "SolArr [''a'', ''b'']"
          "\<lparr>has_main_content = True, solution_container = None\<rparr>"
          "\<lambda>s. Inr s"
          "\<lparr>window_currentMode = None, dom_latex_input = None, dom_drawing_latex_result = None,
            dom_result_latex = None, dom_solution_container = None,
            dom_operation_type = Some ''fourier'', dom_explanation_container = None\<rparr>"
          None "Inr \<lparr>save_ok = True, data_success = True, save_error = None\<rparr>"
          "''1/1/2025, 12:00:00 PM''"]
    by (simp add: TextMode_solved_def TextMode_displaySolution_def DrawMode_displaySolution_def
          result_of_def render_or_def steps_section_def autoSave_gate_def truthy_def
          autoSaveCalculation_def solution_truthy_def solutionText_of_def autoSave_title_def cap
          saveCurrentCalculation_def js_or_def after_save_def solutionsHtml_def includes_js_def)
qed

text \<open>
  The claim as stated fails for a response without error whose solution is the empty
  string, which \<open>autoSaveCalculation\<close> refuses, and for every solve in draw mode, which
  saves nothing.
\<close>

theorem error_free_results_not_saved:
  "TextMode_solved (\<lambda>s. Inr s)
        \<lparr>window_isAuthenticated = True, window_saveCurrentCalculation = True\<rparr>
        \<lparr>isAuthenticated = True, authToken = Some ''tok''\<rparr>
        \<lparr>window_currentMode = None, dom_latex_input = None, dom_drawing_latex_result = None,
         dom_result_latex = None, dom_solution_container = None,
         dom_operation_type = Some ''solve'', dom_explanation_container = None\<rparr>
        None (Inr \<lparr>save_ok = True, data_success = True, save_error = None\<rparr>)
        ''1/1/2025, 12:00:00 PM'' ''x^{2}=4''
        \<lparr>resp_error = None, resp_solution = Some (SolStr []), resp_ai_steps = None\<rparr>
        \<lparr>has_main_content = True, solution_container = None\<rparr>
      = Inr (\<lparr>has_main_content = True,
              solution_container = Some [Header ''Solution'', Result (Rendered [])]\<rparr>,
             [ConsoleError ''Missing required data for auto-save''])
   \<and> DrawMode_solved (\<lambda>s. Inr s)
        \<lparr>resp_error = None, resp_solution = Some (SolStr ''x=2''), resp_ai_steps = None\<rparr>
        \<lparr>has_main_content = True, solution_container = None\<rparr>
      = Inr (\<lparr>has_main_content = True,
              solution_container = Some [Header ''Solution'', Result (Rendered ''x=2'')]\<rparr>, [])"
  by (simp add: TextMode_solved_def TextMode_displaySolution_def DrawMode_displaySolution_def
        DrawMode_solved_def result_of_def render_or_def steps_section_def autoSave_gate_def
        truthy_def autoSaveCalculation_def solution_truthy_def)

section \<open>The text-mode converter\<close>

text \<open>The backtracking order: where a greedy star settles.\<close>

lemma concat_rev_upt_drop:
  assumes "j \<le> L" and "\<forall>n. j < n \<and> n \<le> L \<longrightarrow> f n = []"
  shows "concat (map f (rev [0 ..< Suc L])) = concat (map f (rev [0 ..< Suc j]))"
  using assms
proof (induction L)
  case 0
  then show ?case by simp
next
  case (Suc L)
  show ?case
  proof (cases "j = Suc L")
    case True
    then show ?thesis by simp
  next
    case False
    with Suc.prems have "j \<le> L" "f (Suc L) = []" by auto
    moreover have "\<forall>n. j < n \<and> n \<le> L \<longrightarrow> f n = []" using Suc.prems by auto
    ultimately show ?thesis using Suc.IH by simp
  qed
qed

lemma matches_group_star:
  "matches (Group (Star P)) s
     = map (\<lambda>n. (n, [Some (take n s)])) (rev [0 ..< Suc (length (takeWhile P s))])"
  by (simp add: comp_def)

lemma matches_seq_group_star:
  "matches (Seq (Group (Star P)) k) s
     = concat (map (\<lambda>n. map (\<lambda>(m, cb). (n + m, Some (take n s) # cb)) (matches k (drop n s)))
                   (rev [0 ..< Suc (length (takeWhile P s))]))"
  by (simp add: comp_def del: upt_Suc)

lemma length_takeWhile_all:
  "list_all P p \<Longrightarrow> length p \<le> length (takeWhile P (p @ r))"
  by (induction p) auto

lemma take_takeWhile_all:
  "n \<le> length (takeWhile P s) \<Longrightarrow> list_all P (take n s)"
proof (induction s arbitrary: n)
  case Nil
  then show ?case by simp
next
  case (Cons c s)
  then show ?case by (cases n) (auto split: if_splits)
qed

text \<open>The greedy star followed by \<open>k\<close>: the longest run after which \<open>k\<close> matches wins.\<close>

lemma star_seq_first:
  assumes "list_all P p"
    and "matches k r = (m, cb) # rest"
    and "\<forall>n. length p < n \<and> n \<le> length (takeWhile P (p @ r)) \<longrightarrow> matches k (drop n (p @ r)) = []"
  shows "\<exists>rest'. matches (Seq (Group (Star P)) k) (p @ r) = (length p + m, Some p # cb) # rest'"
proof -
  let ?s = "p @ r"
  let ?f = "\<lambda>n. map (\<lambda>(m, cb). (n + m, Some (take n ?s) # cb)) (matches k (drop n ?s))"
  have le: "length p \<le> length (takeWhile P ?s)"
    using assms(1) by (rule length_takeWhile_all)
  have "concat (map ?f (rev [0 ..< Suc (length (takeWhile P ?s))]))
      = concat (map ?f (rev [0 ..< Suc (length p)]))"
    using le assms(3) by (intro concat_rev_upt_drop) auto
  also have "\<dots> = ?f (length p) @ concat (map ?f (rev [0 ..< length p]))"
    by simp
  also have "?f (length p) = (length p + m, Some p # cb) # map (\<lambda>(m, cb). (length p + m, Some p # cb)) rest"
    using assms(2) by simp
  finally show ?thesis
    by (simp only: matches_seq_group_star) auto
qed

lemma star_seq_none:
  assumes "\<forall>n. n \<le> length (takeWhile P s) \<longrightarrow> matches k (drop n s) = []"
  shows "matches (Seq (Group (Star P)) k) s = []"
  using assms by (simp add: matches_seq_group_star del: upt_Suc)

lemma matches_seq_chr:
  "matches (Seq (Cls (\<lambda>c. c = x)) k) s
     = (case s of [] \<Rightarrow> [] | c # t \<Rightarrow> if c = x then map (\<lambda>(m, cb). (Suc m, cb)) (matches k t) else [])"
  by (cases s) auto

lemma seq_chr_notin:
  "x \<notin> set u \<Longrightarrow> matches (Seq (Cls (\<lambda>c. c = x)) k) u = []"
  by (cases u) (auto simp: matches_seq_chr simp del: matches.simps)

lemma star_chr_none:
  assumes "x \<notin> set s"
  shows "matches (Seq (Group (Star P)) (Seq (Cls (\<lambda>c. c = x)) k)) s = []"
proof (rule star_seq_none, intro allI impI)
  fix n
  have "set (drop n s) \<subseteq> set s" by (rule set_drop_subset)
  with assms have "x \<notin> set (drop n s)" by auto
  then show "matches (Seq (Cls (\<lambda>c. c = x)) k) (drop n s) = []"
    by (cases "drop n s") (auto simp: matches_seq_chr)
qed


text \<open>The domain pattern on one line.\<close>

lemma matches_close_end:
  "matches (Seq (Cls (\<lambda>c. c = CHR '']'')) EndAnchor) r = (if r = '']'' then [(1, [])] else [])"
  by (cases r) (auto simp: matches_seq_chr)

lemma domain_upper_bound:
  assumes "list_all is_dot b"
  shows "\<exists>rest. matches (Seq (Group (Star is_dot)) (Seq (Cls (\<lambda>c. c = CHR '']'')) EndAnchor))
                  (b @ '']'') = (length b + 1, [Some b]) # rest"
proof (rule star_seq_first [OF assms])
  show "matches (Seq (Cls (\<lambda>c. c = CHR '']'')) EndAnchor) '']'' = (1, []) # []"
    by (simp add: matches_close_end)
  show "\<forall>n. length b < n \<and> n \<le> length (takeWhile is_dot (b @ '']'')) \<longrightarrow>
          matches (Seq (Cls (\<lambda>c. c = CHR '']'')) EndAnchor) (drop n (b @ '']'')) = []"
    by (auto simp: matches_close_end)
qed

lemma domain_lower_bound:
  assumes "list_all is_dot a" and "list_all is_dot b" and "CHR '','' \<notin> set b"
  shows "\<exists>rest. matches
           (Seq (Group (Star is_dot))
              (Seq (Cls (\<lambda>c. c = CHR '',''))
                 (Seq (Group (Star is_dot)) (Seq (Cls (\<lambda>c. c = CHR '']'')) EndAnchor))))
           (a @ '','' @ b @ '']'')
         = (length a + Suc (length b + 1), [Some a, Some b]) # rest"
proof -
  let ?k3 = "Seq (Group (Star is_dot)) (Seq (Cls (\<lambda>c. c = CHR '']'')) EndAnchor)"
  let ?k2 = "Seq (Cls (\<lambda>c. c = CHR '','')) ?k3"
  from domain_upper_bound [OF assms(2)] obtain rest3 where
    m3: "matches ?k3 (b @ '']'') = (length b + 1, [Some b]) # rest3" by blast
  have here: "matches ?k2 ('','' @ b @ '']'')
      = (Suc (length b + 1), [Some b]) # map (\<lambda>(m, cb). (Suc m, cb)) rest3"
    using m3 by (simp add: matches_seq_chr del: matches.simps)
  have later: "matches ?k2 (drop n (a @ '','' @ b @ '']'')) = []" if "length a < n" for n
  proof -
    from that obtain j where n: "n = length a + Suc j"
      by (metis less_imp_Suc_add add_Suc_right)
    have d: "drop n (a @ '','' @ b @ '']'') = drop j (b @ '']'')"
      by (simp add: n)
    have "CHR '','' \<notin> set (drop j (b @ '']''))"
      using assms(3) set_drop_subset [of j "b @ '']''"] by auto
    then have "matches ?k2 (drop j (b @ '']'')) = []"
      by (rule seq_chr_notin)
    then show ?thesis by (simp only: d)
  qed
  have "\<exists>rest. matches (Seq (Group (Star is_dot)) ?k2) (a @ ('','' @ b @ '']''))
          = (length a + Suc (length b + 1), Some a # [Some b]) # rest"
    by (rule star_seq_first [OF assms(1) here]) (use later in \<open>auto simp del: matches.simps\<close>)
  then show ?thesis by (simp del: matches.simps)
qed

lemma domain_match_at:
  assumes "list_all is_dot e" and "list_all is_dot a" and "list_all is_dot b"
    and "CHR ''['' \<notin> set a" and "CHR '','' \<notin> set b"
  shows "\<exists>n rest. matches re_domain (e @ ''['' @ a @ '','' @ b @ '']'')
            = (n, [Some e, Some a, Some b]) # rest"
proof -
  let ?k3 = "Seq (Group (Star is_dot)) (Seq (Cls (\<lambda>c. c = CHR '']'')) EndAnchor)"
  let ?k2 = "Seq (Group (Star is_dot)) (Seq (Cls (\<lambda>c. c = CHR '','')) ?k3)"
  let ?k1 = "Seq (Cls (\<lambda>c. c = CHR ''['')) ?k2"
  let ?tail = "a @ '','' @ b @ '']''"
  from domain_lower_bound [OF assms(2,3,5)] obtain rest2 where
    m2: "matches ?k2 ?tail = (length a + Suc (length b + 1), [Some a, Some b]) # rest2" by blast
  have here: "matches ?k1 (''['' @ ?tail)
      = (Suc (length a + Suc (length b + 1)), [Some a, Some b]) # map (\<lambda>(m, cb). (Suc m, cb)) rest2"
    using m2 by (simp add: matches_seq_chr del: matches.simps)
  have later: "matches ?k1 (drop n (e @ ''['' @ ?tail)) = []" if "length e < n" for n
  proof -
    from that obtain j where n: "n = length e + Suc j"
      by (metis less_imp_Suc_add add_Suc_right)
    have d: "drop n (e @ ''['' @ ?tail) = drop j ?tail"
      by (simp add: n)
    define u where "u = drop j ?tail"
    have "matches ?k1 u = []"
    proof (cases u)
      case Nil
      then show ?thesis by (simp add: matches_seq_chr del: matches.simps)
    next
      case (Cons c t)
      show ?thesis
      proof (cases "c = CHR ''[''")
        case False
        then show ?thesis by (simp add: Cons matches_seq_chr del: matches.simps)
      next
        case True
        have "length a < j"
        proof (rule ccontr)
          assume "\<not> length a < j"
          then consider "j < length a" | "j = length a" by linarith
          then show False
          proof cases
            case 1
            then have "u = drop j a @ '','' @ b @ '']''" by (simp add: u_def)
            moreover from 1 have "drop j a \<noteq> []" by simp
            ultimately have "c \<in> set (drop j a)"
              using Cons by (cases "drop j a") auto
            then have "c \<in> set a" by (rule in_set_dropD)
            with True assms(4) show False by simp
          next
            case 2
            then have "u = '','' @ b @ '']''" by (simp add: u_def)
            with Cons True show False by simp
          qed
        qed
        then obtain i where j: "j = length a + Suc i"
          by (metis less_imp_Suc_add add_Suc_right)
        have "u = drop i (b @ '']'')" by (simp add: j u_def)
        then have "set u \<subseteq> set (b @ '']'')" by (metis set_drop_subset)
        moreover have "set t \<subseteq> set u" using Cons by auto
        ultimately have "set t \<subseteq> set (b @ '']'')" by blast
        then have "CHR '','' \<notin> set t" using assms(5) by auto
        then have "matches ?k2 t = []" by (rule star_chr_none)
        then show ?thesis by (simp add: Cons True matches_seq_chr del: matches.simps)
      qed
    qed
    then have "matches ?k1 (drop j ?tail) = []" by (simp only: u_def)
    then show ?thesis by (simp only: d)
  qed
  have "\<exists>rest. matches (Seq (Group (Star is_dot)) ?k1) (e @ (''['' @ ?tail))
          = (length e + Suc (length a + Suc (length b + 1)), Some e # [Some a, Some b]) # rest"
    by (rule star_seq_first [OF assms(1) here]) (use later in \<open>auto simp del: matches.simps\<close>)
  then show ?thesis by (auto simp: re_domain_def simp del: matches.simps)
qed

lemma domain_match_single_line:
  assumes "list_all is_dot e" and "list_all is_dot a" and "list_all is_dot b"
    and "CHR ''['' \<notin> set a" and "CHR '','' \<notin> set b"
  shows "js_match re_domain (e @ ''['' @ a @ '','' @ b @ '']'') = Some [Some e, Some a, Some b]"
proof -
  from domain_match_at [OF assms] obtain n rest where
    m: "matches re_domain (e @ ''['' @ a @ '','' @ b @ '']'') = (n, [Some e, Some a, Some b]) # rest"
    by blast
  show ?thesis
    by (cases "e @ ''['' @ a @ '','' @ b @ '']''") (use m in \<open>auto simp del: matches.simps\<close>)
qed

text \<open>
  When the rewritten input is one line \<open>e[a,b]\<close>, with no \<open>[\<close> in \<open>a\<close> and no \<open>,\<close> in \<open>b\<close>,
  the Fourier branch returns \<open>e\<close>, the words \<open>\text{ on }\<close> and the same bounds.
\<close>

lemma fourier_domain_single_line:
  assumes "rewrite_exponents input = e @ ''['' @ a @ '','' @ b @ '']''"
    and "list_all is_dot e" and "list_all is_dot a" and "list_all is_dot b"
    and "CHR ''['' \<notin> set a" and "CHR '','' \<notin> set b"
  shows "processInputToLatex (Some ''fourier'') input
           = e @ '' '' @ [backslash] @ ''text{ on } ['' @ a @ '','' @ b @ '']''"
  using domain_match_single_line [OF assms(2-6)]
  by (simp add: processInputToLatex_def assms(1) grp_def)

text \<open>The first and the last replacement, for every input.\<close>

lemma takeWhile_stop:
  "list_all P p \<Longrightarrow> \<not> P c \<Longrightarrow> takeWhile P (p @ c # r) = p"
  by (induction p) auto

lemma star_seq_stop:
  assumes "list_all P p" and "\<not> P c" and "matches k (c # r) = (m, cb) # rest"
  shows "\<exists>rest'. matches (Seq (Group (Star P)) k) (p @ c # r) = (length p + m, Some p # cb) # rest'"
  by (rule star_seq_first [OF assms(1,3)]) (auto simp: takeWhile_stop [OF assms(1,2)])

lemma matches_seq_group_cls:
  "matches (Seq (Group (Cls P)) k) (x # t)
     = (if P x then map (\<lambda>(m, cb). (Suc m, Some [x] # cb)) (matches k t) else [])"
  by (simp add: comp_def case_prod_beta)

lemma matches_multiplication:
  assumes "is_digit x \<or> is_letter x \<or> x = CHR '')'' \<or> x = CHR ''}''"
    and "is_digit y \<or> is_letter y \<or> y = CHR ''('' \<or> y = CHR ''{''"
    and "list_all is_js_space w1" and "list_all is_js_space w2"
  shows "\<exists>rest'. matches re_multiplication (x # w1 @ ''*'' @ w2 @ y # rest)
           = (Suc (length w1 + Suc (length w2 + 1)), [Some [x], Some w1, Some w2, Some [y]]) # rest'"
proof -
  let ?B = "Group (Cls (\<lambda>c. is_digit c \<or> is_letter c \<or> c = CHR ''('' \<or> c = CHR ''{''))"
  let ?k2 = "Seq (Group (Star is_js_space)) ?B"
  let ?k1 = "Seq (Group (Star is_js_space)) (Seq (Cls (\<lambda>c. c = CHR ''*'')) ?k2)"
  have y: "\<not> is_js_space y"
    using assms(2)
    by (auto simp: is_js_space_def is_digit_def is_letter_def is_lower_def is_upper_def)
  have "matches ?B (y # rest) = (1, [Some [y]]) # []"
    using assms(2) by simp
  from star_seq_stop [OF assms(4) y this] obtain r2 where
    m2: "matches ?k2 (w2 @ y # rest) = (length w2 + 1, [Some w2, Some [y]]) # r2" by blast
  have star: "\<not> is_js_space CHR ''*''"
    by (simp add: is_js_space_def)
  have "matches (Seq (Cls (\<lambda>c. c = CHR ''*'')) ?k2) (CHR ''*'' # w2 @ y # rest)
      = (Suc (length w2 + 1), [Some w2, Some [y]]) # map (\<lambda>(m, cb). (Suc m, cb)) r2"
    using m2 by (simp add: matches_seq_chr del: matches.simps)
  from star_seq_stop [OF assms(3) star this] obtain r1 where
    m1: "matches ?k1 (w1 @ CHR ''*'' # w2 @ y # rest)
           = (length w1 + Suc (length w2 + 1), [Some w1, Some w2, Some [y]]) # r1" by blast
  have "matches (Seq (Group (Cls (\<lambda>c. is_digit c \<or> is_letter c \<or> c = CHR '')'' \<or> c = CHR ''}''))) ?k1)
          (x # w1 @ CHR ''*'' # w2 @ y # rest)
      = map (\<lambda>(m, cb). (Suc m, Some [x] # cb)) (matches ?k1 (w1 @ CHR ''*'' # w2 @ y # rest))"
    using assms(1) by (simp only: matches_seq_group_cls if_True)
  then show ?thesis
    by (simp add: re_multiplication_def m1 del: matches.simps)
qed

text \<open>
  One step of the first replacement: the \<open>*\<close> between two operands goes, the white
  space around it stays, and the search goes on behind the right operand.
\<close>

lemma product_star_removed:
  assumes "is_digit x \<or> is_letter x \<or> x = CHR '')'' \<or> x = CHR ''}''"
    and "is_digit y \<or> is_letter y \<or> y = CHR ''('' \<or> y = CHR ''{''"
    and "list_all is_js_space w1" and "list_all is_js_space w2"
  shows "replace_global re_multiplication (\<lambda>m g. grp g 1 @ grp g 2 @ grp g 3 @ grp g 4)
           (x # w1 @ ''*'' @ w2 @ y # rest)
         = x # w1 @ w2 @ y #
           replace_global re_multiplication (\<lambda>m g. grp g 1 @ grp g 2 @ grp g 3 @ grp g 4) rest"
proof -
  from matches_multiplication [OF assms, of rest] obtain rest' where
    "matches re_multiplication (x # w1 @ ''*'' @ w2 @ y # rest)
       = (Suc (length w1 + Suc (length w2 + 1)), [Some [x], Some w1, Some w2, Some [y]]) # rest'"
    by blast
  then show ?thesis
    by (simp add: grp_def del: matches.simps)
qed

lemma matches_exponent_Nil: "matches re_exponent [] = []"
  by (simp add: re_exponent_def)

lemma matches_exponent_other: "c \<noteq> CHR ''^'' \<Longrightarrow> matches re_exponent (c # t) = []"
  by (simp add: re_exponent_def)

lemma matches_exponent_caret:
  "matches re_exponent (CHR ''^'' # t)
     = map (\<lambda>n. (Suc n, [Some (take n t)])) (rev [1 ..< Suc (length (takeWhile is_alnum t))])"
  by (simp add: re_exponent_def comp_def del: upt_Suc)

lemma rev_upt_1:
  "0 < L \<Longrightarrow> rev [1 ..< Suc L] = L # rev [1 ..< L]"
  by simp

lemma matches_exponent_cases:
  "matches re_exponent s = [] \<and> (\<forall>t. s = CHR ''^'' # t \<longrightarrow> takeWhile is_alnum t = [])
   \<or> (\<exists>t rest. s = CHR ''^'' # t \<and> takeWhile is_alnum t \<noteq> []
         \<and> matches re_exponent s
             = (Suc (length (takeWhile is_alnum t)), [Some (takeWhile is_alnum t)]) # rest)"
proof (cases s)
  case Nil
  then show ?thesis by (simp add: matches_exponent_Nil)
next
  case (Cons c t)
  show ?thesis
  proof (cases "c = CHR ''^''")
    case False
    then show ?thesis by (simp add: Cons matches_exponent_other)
  next
    case True
    show ?thesis
    proof (cases "takeWhile is_alnum t = []")
      case True
      with \<open>c = CHR ''^''\<close> show ?thesis
        by (simp add: Cons matches_exponent_caret)
    next
      case False
      then have "0 < length (takeWhile is_alnum t)" by simp
      then have "rev [1 ..< Suc (length (takeWhile is_alnum t))]
          = length (takeWhile is_alnum t) # rev [1 ..< length (takeWhile is_alnum t)]"
        by (rule rev_upt_1)
      then have "matches re_exponent (CHR ''^'' # t)
          = (Suc (length (takeWhile is_alnum t)), [Some (take (length (takeWhile is_alnum t)) t)])
            # map (\<lambda>n. (Suc n, [Some (take n t)])) (rev [1 ..< length (takeWhile is_alnum t)])"
        by (simp only: matches_exponent_caret list.map)
      moreover have "take (length (takeWhile is_alnum t)) t = takeWhile is_alnum t"
        by (simp add: takeWhile_eq_take [symmetric])
      ultimately show ?thesis
        using False \<open>c = CHR ''^''\<close> by (simp add: Cons del: matches.simps)
    qed
  qed
qed

lemma not_alnum_caret: "\<not> is_alnum CHR ''^''" "\<not> is_alnum CHR ''{''" "\<not> is_alnum CHR ''}''"
  by (simp_all add: is_alnum_def is_letter_def is_lower_def is_upper_def is_digit_def)

lemma bare_exponent_alnum_run:
  "list_all is_alnum g \<Longrightarrow> bare_exponent (g @ CHR ''}'' # r) = bare_exponent r"
proof (induction g)
  case Nil
  then show ?case by (cases r) simp_all
next
  case (Cons a g)
  then have "a \<noteq> CHR ''^''" using not_alnum_caret(1) by auto
  with Cons show ?case by (cases g) simp_all
qed

lemma bare_exponent_braced:
  "list_all is_alnum g \<Longrightarrow> bare_exponent (''^{'' @ g @ ''}'' @ r) = bare_exponent r"
  using bare_exponent_alnum_run [of g r] not_alnum_caret(2)
  by (cases g) simp_all

lemma replace_exponent_hd:
  "replace_global re_exponent (\<lambda>m g. ''^{'' @ grp g 1 @ ''}'') (c # cs) \<noteq> []
   \<and> hd (replace_global re_exponent (\<lambda>m g. ''^{'' @ grp g 1 @ ''}'') (c # cs)) = c"
  using matches_exponent_cases [of "c # cs"]
  by (auto simp: grp_def simp del: matches.simps)

text \<open>After the last replacement no \<open>^\<close> is followed at once by a letter or a digit.\<close>

lemma replace_exponent_no_bare:
  "\<not> bare_exponent (replace_global re_exponent (\<lambda>m g. ''^{'' @ grp g 1 @ ''}'') s)"
proof (induction s rule: length_induct)
  case (1 s)
  let ?R = "replace_global re_exponent (\<lambda>m g. ''^{'' @ grp g 1 @ ''}'')"
  show ?case
  proof (cases s)
    case Nil
    then show ?thesis by (simp add: matches_exponent_Nil del: matches.simps)
  next
    case (Cons c cs)
    from matches_exponent_cases [of s] show ?thesis
    proof
      assume none: "matches re_exponent s = [] \<and> (\<forall>t. s = CHR ''^'' # t \<longrightarrow> takeWhile is_alnum t = [])"
      then have out: "?R s = c # ?R cs"
        by (simp add: Cons del: matches.simps)
      have ih: "\<not> bare_exponent (?R cs)" using 1 Cons by simp
      show ?thesis
      proof (cases cs)
        case Nil
        then have "?R cs = []" by (simp add: matches_exponent_Nil del: matches.simps)
        then have "?R s = [c]" by (simp only: out)
        then show ?thesis by (simp only: bare_exponent.simps not_False_eq_True)
      next
        case (Cons d ds)
        obtain rs where rs: "?R cs = d # rs"
          using replace_exponent_hd [of d ds] Cons by (cases "?R cs") auto
        have nb: "\<not> (c = CHR ''^'' \<and> is_alnum d)"
          using none \<open>s = c # cs\<close> Cons by auto
        have e: "?R s = c # d # rs" by (simp only: out rs)
        have "\<not> bare_exponent (d # rs)" using ih by (simp only: rs not_False_eq_True)
        with nb have "\<not> bare_exponent (c # d # rs)" by simp
        then show ?thesis by (simp only: e not_False_eq_True)
      qed
    next
      assume "\<exists>t rest. s = CHR ''^'' # t \<and> takeWhile is_alnum t \<noteq> []
         \<and> matches re_exponent s
             = (Suc (length (takeWhile is_alnum t)), [Some (takeWhile is_alnum t)]) # rest"
      then obtain t rest where t: "s = CHR ''^'' # t" "takeWhile is_alnum t \<noteq> []"
        and m: "matches re_exponent s
             = (Suc (length (takeWhile is_alnum t)), [Some (takeWhile is_alnum t)]) # rest"
        by blast
      have out: "?R s = ''^{'' @ takeWhile is_alnum t @ ''}''
                         @ ?R (drop (length (takeWhile is_alnum t)) t)"
        using m by (simp add: t(1) grp_def del: matches.simps)
      have "length (drop (length (takeWhile is_alnum t)) t) < length s"
        by (simp add: t(1))
      then have "\<not> bare_exponent (?R (drop (length (takeWhile is_alnum t)) t))"
        using 1 by blast
      moreover have "list_all is_alnum (takeWhile is_alnum t)"
        by (simp add: list_all_iff) (metis set_takeWhileD)
      ultimately show ?thesis
        by (simp only: out bare_exponent_braced not_False_eq_True)
    qed
  qed
qed

lemma rewrite_exponents_no_bare: "\<not> bare_exponent (rewrite_exponents input)"
  by (simp only: rewrite_exponents_def Let_def replace_exponent_no_bare not_False_eq_True)

lemma not_fourier_unchanged:
  "(case operation_select of Some v \<Rightarrow> v | None \<Rightarrow> ''solve'') \<noteq> ''fourier'' \<Longrightarrow>
   processInputToLatex operation_select input = rewrite_exponents input"
  by (simp add: processInputToLatex_def)

lemma no_domain_unchanged:
  "js_match re_domain (rewrite_exponents input) = None \<Longrightarrow>
   processInputToLatex operation_select input = rewrite_exponents input"
  by (simp add: processInputToLatex_def Let_def)

lemma rewrite_laplace_example: "rewrite_exponents ''t^2e^(-3t)'' = ''t^{2} e^{-3 t}''"
  by code_simp

lemma no_domain_laplace_example: "js_match re_domain ''t^{2} e^{-3 t}'' = None"
  by code_simp

text \<open>
  The input \<open>t^2e^(-3t)\<close> of the specification, under every operation type: both
  exponents end up in braces, and a space stands before \<open>e\<close> (and before the \<open>t\<close> of the
  exponent, which follows a digit too).
\<close>

lemma laplace_example:
  "processInputToLatex operation_select ''t^2e^(-3t)'' = ''t^{2} e^{-3 t}''"
proof -
  have "js_match re_domain (rewrite_exponents ''t^2e^(-3t)'') = None"
    by (simp only: rewrite_laplace_example no_domain_laplace_example)
  then have "processInputToLatex operation_select ''t^2e^(-3t)'' = rewrite_exponents ''t^2e^(-3t)''"
    by (rule no_domain_unchanged)
  then show ?thesis by (simp only: rewrite_laplace_example)
qed

lemma single_product_example:
  "processInputToLatex (Some ''laplace'') ''t^2*e^(-3t)'' = ''t^{2} e^{-3 t}''"
  by code_simp

text \<open>
  C3. The converter is to remove the explicit \<open>*\<close> signs between operands, as the
  comment in the source says of the first replacement. Each match takes the operand to
  the right of its \<open>*\<close>, and the next search starts behind it (lemma
  \<open>product_star_removed\<close>), so that operand cannot be the left operand of the next
  \<open>*\<close>: of the two signs in \<open>2*x*y\<close> only the first is removed.
\<close>

theorem chained_product_keeps_star:
  "processInputToLatex (Some ''solve'') ''2*x*y'' = ''2 x*y''"
  by code_simp

text \<open>
  The Fourier input \<open>x^2[-3.14,3.14]\<close> of the specification: bounds taken, domain clause
  added; under another operation type the brackets stay as typed.
\<close>

lemma fourier_example:
  "processInputToLatex (Some ''fourier'') ''x^2[-3.14,3.14]''
     = ''x^{2} '' @ [backslash] @ ''text{ on } [-3.14,3.14]''"
  by code_simp

lemma fourier_example_other_type:
  "processInputToLatex (Some ''solve'') ''x^2[-3.14,3.14]'' = ''x^{2}[-3.14,3.14]''"
  by code_simp

text \<open>
  C4. For a Fourier series the converter is to take the bounds off the end of the input
  and to return the expression before them with the domain clause. On one line it does
  (lemma \<open>fourier_domain_single_line\<close>). In the domain pattern \<open>.\<close> matches no line
  feed, and the text is rebuilt from the captures instead of being replaced in place:
  when the input has more than one line, what stands before the last line is lost.
  With the bounds on a line of their own the expression is gone from the result.
\<close>

theorem fourier_domain_drops_first_line:
  "processInputToLatex (Some ''fourier'') (''x^2'' @ [CHR 0x0A] @ ''[-3.14,3.14]'')
     = '' '' @ [backslash] @ ''text{ on } [-3.14,3.14]''"
  by code_simp


end
